theory Spec2Isabelle
  imports Complex_Main "HOL-Library.Sublist"
begin

section \<open>Strings and numbers as the TypeScript code uses them\<close>

text \<open>
  Usernames on Chess.com are ASCII (letters, digits, underscore, hyphen), so
  \<^verbatim>\<open>String.prototype.toLowerCase\<close> is modelled on ASCII letters: the 26 capitals
  are mapped to their small letters and every other character is kept.
\<close>

definition toLowerChar :: "char \<Rightarrow> char" where
  "toLowerChar c =
     (case map_of (zip ''ABCDEFGHIJKLMNOPQRSTUVWXYZ'' ''abcdefghijklmnopqrstuvwxyz'') c of
        Some l \<Rightarrow> l
      | None \<Rightarrow> c)"

definition toLowerCase :: "string \<Rightarrow> string" where
  "toLowerCase s = map toLowerChar s"

text \<open>
  Years and months are integral JavaScript numbers; a template literal prints them in
  decimal, with a leading minus sign when negative.
\<close>

fun digits :: "nat \<Rightarrow> string" where
  "digits n =
     (if n < 10 then [''0123456789'' ! n]
      else digits (n div 10) @ [''0123456789'' ! (n mod 10)])"

declare digits.simps [simp del]

definition numberToString :: "int \<Rightarrow> string" where
  "numberToString i = (if i < 0 then CHR ''-'' # digits (nat (- i)) else digits (nat i))"

text \<open>\<^verbatim>\<open>s.padStart(2, '0')\<close>\<close>

definition padStart2 :: "string \<Rightarrow> string" where
  "padStart2 s = replicate (2 - length s) (CHR ''0'') @ s"

text \<open>
  An optional string argument \<^verbatim>\<open>username?: string\<close> tested by \<^verbatim>\<open>if (username)\<close>:
  \<^verbatim>\<open>undefined\<close> and the empty string are both falsy.
\<close>

definition truthy :: "string option \<Rightarrow> bool" where
  "truthy u = (case u of None \<Rightarrow> False | Some s \<Rightarrow> s \<noteq> [])"


section \<open>Data model of \<^verbatim>\<open>CacheService.ts\<close>\<close>

text \<open>\<^verbatim>\<open>interface CacheEntry<T>\<close>; times are milliseconds as returned by \<^verbatim>\<open>Date.now()\<close>.\<close>

record 'a CacheEntry =
  data :: 'a
  timestamp :: int
  expiresAt :: int

text \<open>
  \<^verbatim>\<open>interface ChessComGame\<close>, with the fields the modelled code reads (the record is
  extensible, the remaining fields of the interface play no role in what follows).
\<close>

record ChessComGame =
  url :: string
  pgn :: string
  end_time :: int
  uuid :: string
  white_username :: string
  black_username :: string

text \<open>
  The two SQLite tables. A table is the list of its rows in insertion order.
  The type \<open>'j\<close> is the JSON text held by the \<^verbatim>\<open>TEXT\<close> columns \<^verbatim>\<open>game_data\<close> and
  \<^verbatim>\<open>analysis_data\<close>. Both tables declare their first column \<^verbatim>\<open>PRIMARY KEY\<close>
  (\<^verbatim>\<open>uuid\<close>, respectively \<^verbatim>\<open>game_uuid\<close>); the \<^verbatim>\<open>FOREIGN KEY\<close> clause of the
  analysis table is not enforced by SQLite unless the pragma is switched on, which the code
  never does.
\<close>

record 'j games_row =
  g_uuid :: string
  g_username :: string
  g_year :: int
  g_month :: int
  game_data :: 'j
  g_cached_at :: int

record 'j analysis_row =
  game_uuid :: string
  a_username :: string
  analysis_data :: 'j
  a_cached_at :: int

text \<open>
  The state of one \<^verbatim>\<open>CacheService\<close> object: the two in-memory \<^verbatim>\<open>Map\<close>s and the two
  tables of \<^verbatim>\<open>games.db\<close>. The database is taken to be open and its statements to succeed;
  \<open>'p\<close> is \<^verbatim>\<open>ChessComPlayerProfile\<close>, whose fields the cache never inspects.
\<close>

record ('p, 'j) CacheService =
  userProfileCache :: "string \<rightharpoonup> 'p CacheEntry"
  monthlyGamesCache :: "string \<rightharpoonup> ChessComGame list CacheEntry"
  games :: "'j games_row list"
  analysis :: "'j analysis_row list"

definition USER_PROFILE_TTL :: int where
  "USER_PROFILE_TTL = 3600000"

definition MONTHLY_GAMES_TTL :: int where
  "MONTHLY_GAMES_TTL = 86400000"

definition emptyCache :: "('p, 'j) CacheService" where
  "emptyCache = \<lparr>userProfileCache = Map.empty, monthlyGamesCache = Map.empty,
                 games = [], analysis = []\<rparr>"


section \<open>User profile cache (in memory)\<close>

text \<open>
  Every operation that reads the clock takes the value of \<^verbatim>\<open>Date.now()\<close> as the
  argument \<open>now\<close>; an operation that mutates the service returns the new state.
\<close>

definition getCachedUserProfile ::
  "('p, 'j) CacheService \<Rightarrow> string \<Rightarrow> int \<Rightarrow> 'p option \<times> ('p, 'j) CacheService" where
  "getCachedUserProfile c username now =
     (case userProfileCache c (toLowerCase username) of
        None \<Rightarrow> (None, c)
      | Some cached \<Rightarrow>
          if now > expiresAt cached
          then (None, c\<lparr>userProfileCache := (userProfileCache c)(toLowerCase username := None)\<rparr>)
          else (Some (data cached), c))"

definition cacheUserProfile ::
  "('p, 'j) CacheService \<Rightarrow> string \<Rightarrow> 'p \<Rightarrow> int \<Rightarrow> ('p, 'j) CacheService" where
  "cacheUserProfile c username profile now =
     c\<lparr>userProfileCache := (userProfileCache c)(toLowerCase username \<mapsto>
         \<lparr>data = profile, timestamp = now, expiresAt = now + USER_PROFILE_TTL\<rparr>)\<rparr>"


section \<open>Monthly games cache (in memory)\<close>

text \<open>The key \<^verbatim>\<open>`${username.toLowerCase()}_${year}_${month}`\<close>.\<close>

definition monthlyKey :: "string \<Rightarrow> int \<Rightarrow> int \<Rightarrow> string" where
  "monthlyKey username year month =
     toLowerCase username @ ''_'' @ numberToString year @ ''_'' @ numberToString month"

text \<open>
  \<open>localDate t\<close> is the pair \<^verbatim>\<open>(getFullYear(), getMonth())\<close> of the \<^verbatim>\<open>Date\<close> with time
  value \<open>t\<close> in the local time zone of the process; \<^verbatim>\<open>getMonth()\<close> counts from 0.
\<close>

definition getCachedMonthlyGames ::
  "(int \<Rightarrow> int \<times> int) \<Rightarrow> ('p, 'j) CacheService \<Rightarrow> string \<Rightarrow> int \<Rightarrow> int \<Rightarrow> int \<Rightarrow>
     ChessComGame list option \<times> ('p, 'j) CacheService" where
  "getCachedMonthlyGames localDate c username year month now =
     (let key = monthlyKey username year month in
      case monthlyGamesCache c key of
        None \<Rightarrow> (None, c)
      | Some cached \<Rightarrow>
          (let currentYear = fst (localDate now);
               currentMonth = snd (localDate now) + 1;
               deleted = c\<lparr>monthlyGamesCache := (monthlyGamesCache c)(key := None)\<rparr>
           in if year = currentYear \<and> month = currentMonth
              then (if now > timestamp cached + 300000 then (None, deleted)
                    else (Some (data cached), c))
              else (if now > expiresAt cached then (None, deleted)
                    else (Some (data cached), c))))"

definition cacheMonthlyGames ::
  "('p, 'j) CacheService \<Rightarrow> string \<Rightarrow> int \<Rightarrow> int \<Rightarrow> ChessComGame list \<Rightarrow> int \<Rightarrow>
     ('p, 'j) CacheService" where
  "cacheMonthlyGames c username year month gs now =
     c\<lparr>monthlyGamesCache := (monthlyGamesCache c)(monthlyKey username year month \<mapsto>
         \<lparr>data = gs, timestamp = now, expiresAt = now + MONTHLY_GAMES_TTL\<rparr>)\<rparr>"


section \<open>Individual games (SQLite table \<^verbatim>\<open>games\<close>)\<close>

text \<open>
  \<^verbatim>\<open>INSERT OR REPLACE\<close> on a table with a primary key removes the row that holds the
  same key, if there is one, and then inserts the new row. \<open>stringify\<close> is
  \<^verbatim>\<open>JSON.stringify\<close>; \<open>parseJSON\<close> is \<^verbatim>\<open>JSON.parse\<close>, with \<open>None\<close> when it
  throws (the reads catch that and answer \<^verbatim>\<open>null\<close>).
\<close>

definition getCachedGame ::
  "('j \<Rightarrow> ChessComGame option) \<Rightarrow> ('p, 'j) CacheService \<Rightarrow> string \<Rightarrow> ChessComGame option" where
  "getCachedGame parseJSON c uuid' =
     (case find (\<lambda>r. g_uuid r = uuid') (games c) of
        None \<Rightarrow> None
      | Some row \<Rightarrow> parseJSON (game_data row))"

definition cacheGame ::
  "(int \<Rightarrow> int \<times> int) \<Rightarrow> (ChessComGame \<Rightarrow> 'j) \<Rightarrow> ('p, 'j) CacheService \<Rightarrow> ChessComGame \<Rightarrow>
     string \<Rightarrow> int \<Rightarrow> ('p, 'j) CacheService" where
  "cacheGame localDate stringify c game username now =
     (let (year, month) =
            (if end_time game \<noteq> 0
             then (fst (localDate (end_time game * 1000)), snd (localDate (end_time game * 1000)) + 1)
             else (0, 0))
      in c\<lparr>games := filter (\<lambda>r. g_uuid r \<noteq> uuid game) (games c) @
             [\<lparr>g_uuid = uuid game, g_username = toLowerCase username, g_year = year,
               g_month = month, game_data = stringify game, g_cached_at = now\<rparr>]\<rparr>)"

definition cacheGames ::
  "(int \<Rightarrow> int \<times> int) \<Rightarrow> (ChessComGame \<Rightarrow> 'j) \<Rightarrow> ('p, 'j) CacheService \<Rightarrow> ChessComGame list \<Rightarrow>
     string \<Rightarrow> int \<Rightarrow> ('p, 'j) CacheService" where
  "cacheGames localDate stringify c gs username now =
     (if gs = [] then c
      else fold (\<lambda>game c'. cacheGame localDate stringify c' game username now) gs c)"


section \<open>Analyses (SQLite table \<^verbatim>\<open>analysis\<close>)\<close>

text \<open>
  \<^verbatim>\<open>db.get\<close> answers the first row that the statement selects, \<^verbatim>\<open>db.all\<close> all of them.
  The bulk lookup fills a fresh \<^verbatim>\<open>Map\<close> row by row and skips a row whose JSON does not
  parse.
\<close>

definition getCachedAnalysis ::
  "('j \<Rightarrow> 'a option) \<Rightarrow> ('p, 'j) CacheService \<Rightarrow> string \<Rightarrow> string \<Rightarrow> 'a option" where
  "getCachedAnalysis parseJSON c gameUuid username =
     (case find (\<lambda>r. game_uuid r = gameUuid \<and> a_username r = toLowerCase username) (analysis c) of
        None \<Rightarrow> None
      | Some row \<Rightarrow> parseJSON (analysis_data row))"

definition cacheAnalysis ::
  "('a \<Rightarrow> 'j) \<Rightarrow> ('p, 'j) CacheService \<Rightarrow> string \<Rightarrow> string \<Rightarrow> 'a \<Rightarrow> int \<Rightarrow> ('p, 'j) CacheService" where
  "cacheAnalysis stringify c gameUuid username analysis' now =
     c\<lparr>analysis := filter (\<lambda>r. game_uuid r \<noteq> gameUuid) (analysis c) @
         [\<lparr>game_uuid = gameUuid, a_username = toLowerCase username,
           analysis_data = stringify analysis', a_cached_at = now\<rparr>]\<rparr>"

definition setRow :: "('j \<Rightarrow> 'a option) \<Rightarrow> 'j analysis_row \<Rightarrow> (string \<rightharpoonup> 'a) \<Rightarrow> (string \<rightharpoonup> 'a)" where
  "setRow parseJSON row m =
     (case parseJSON (analysis_data row) of
        None \<Rightarrow> m
      | Some a \<Rightarrow> m(game_uuid row \<mapsto> a))"

definition getCachedAnalyses ::
  "('j \<Rightarrow> 'a option) \<Rightarrow> ('p, 'j) CacheService \<Rightarrow> string \<Rightarrow> string list \<Rightarrow> (string \<rightharpoonup> 'a)" where
  "getCachedAnalyses parseJSON c username gameUuids =
     (if gameUuids = [] then Map.empty
      else fold (setRow parseJSON)
             (filter (\<lambda>r. a_username r = toLowerCase username \<and> game_uuid r \<in> set gameUuids)
                (analysis c))
             Map.empty)"


section \<open>Cache cleanup\<close>

definition clearUserProfileCache ::
  "('p, 'j) CacheService \<Rightarrow> string option \<Rightarrow> ('p, 'j) CacheService" where
  "clearUserProfileCache c username =
     (if truthy username
      then c\<lparr>userProfileCache := (userProfileCache c)(toLowerCase (the username) := None)\<rparr>
      else c\<lparr>userProfileCache := Map.empty\<rparr>)"

text \<open>
  The scoped form collects every key of the map that \<^verbatim>\<open>startsWith\<close> the lowercased
  username and deletes the collected keys.
\<close>

definition clearMonthlyGamesCache ::
  "('p, 'j) CacheService \<Rightarrow> string option \<Rightarrow> ('p, 'j) CacheService" where
  "clearMonthlyGamesCache c username =
     (if truthy username
      then c\<lparr>monthlyGamesCache :=
               (\<lambda>key. if prefix (toLowerCase (the username)) key then None
                       else monthlyGamesCache c key)\<rparr>
      else c\<lparr>monthlyGamesCache := Map.empty\<rparr>)"

definition clearGameCache ::
  "('p, 'j) CacheService \<Rightarrow> string option \<Rightarrow> ('p, 'j) CacheService" where
  "clearGameCache c username =
     (if truthy username
      then c\<lparr>games := filter (\<lambda>r. g_username r \<noteq> toLowerCase (the username)) (games c)\<rparr>
      else c\<lparr>games := []\<rparr>)"

definition clearAnalysisCache ::
  "('p, 'j) CacheService \<Rightarrow> string option \<Rightarrow> ('p, 'j) CacheService" where
  "clearAnalysisCache c username =
     (if truthy username
      then c\<lparr>analysis := filter (\<lambda>r. a_username r \<noteq> toLowerCase (the username)) (analysis c)\<rparr>
      else c\<lparr>analysis := []\<rparr>)"

definition clearAllCache ::
  "('p, 'j) CacheService \<Rightarrow> string option \<Rightarrow> ('p, 'j) CacheService" where
  "clearAllCache c username =
     clearAnalysisCache
       (clearGameCache (clearMonthlyGamesCache (clearUserProfileCache c username) username) username)
       username"


section \<open>\<^verbatim>\<open>ChessComService.getMonthlyGames\<close>\<close>

text \<open>
  The Chess.com API is an external collaborator. \<open>api n url\<close> is what the \<open>n\<close>-th request
  of the process (counting from 0) receives for \<open>url\<close>: a response that is not \<^verbatim>\<open>ok\<close>,
  or the \<^verbatim>\<open>games\<close> array of the archive. The service state carries the list of URLs
  requested so far, so that requests can be counted.
\<close>

datatype error = FetchError | ParseError | EvaluationError

datatype response = NotOk | Archive "ChessComGame list"

record ('p, 'j) ChessComService =
  cache :: "('p, 'j) CacheService"
  requests :: "string list"

definition baseUrl :: string where
  "baseUrl = ''https://api.chess.com/pub''"

definition monthlyUrl :: "string \<Rightarrow> int \<Rightarrow> int \<Rightarrow> string" where
  "monthlyUrl username year month =
     baseUrl @ ''/player/'' @ username @ ''/games/'' @ numberToString year @ ''/'' @
     padStart2 (numberToString month)"

text \<open>
  \<open>now\<close> is the time of the cache lookup and \<open>now'\<close> the time at which the response has
  arrived and the two caches are written.
\<close>

definition getMonthlyGames ::
  "(int \<Rightarrow> int \<times> int) \<Rightarrow> (ChessComGame \<Rightarrow> 'j) \<Rightarrow> (nat \<Rightarrow> string \<Rightarrow> response) \<Rightarrow>
     ('p, 'j) ChessComService \<Rightarrow> string \<Rightarrow> int \<Rightarrow> int \<Rightarrow> int \<Rightarrow> int \<Rightarrow>
     (error + ChessComGame list) \<times> ('p, 'j) ChessComService" where
  "getMonthlyGames localDate stringify api s username year month now now' =
     (case getCachedMonthlyGames localDate (cache s) username year month now of
        (Some cached, c) \<Rightarrow> (Inr cached, s\<lparr>cache := c\<rparr>)
      | (None, c) \<Rightarrow>
          (let url' = monthlyUrl username year month;
               s1 = s\<lparr>cache := c, requests := requests s @ [url']\<rparr>
           in case api (length (requests s)) url' of
                NotOk \<Rightarrow> (Inl FetchError, s1)
              | Archive gs \<Rightarrow>
                  (let c1 = cacheMonthlyGames c username year month gs now';
                       c2 = cacheGames localDate stringify c1 gs username now'
                   in (Inr gs, s1\<lparr>cache := c2\<rparr>))))"


section \<open>\<^verbatim>\<open>PgnParser\<close>\<close>

text \<open>
  \<^verbatim>\<open>interface Game\<close> and \<^verbatim>\<open>interface Move\<close> of \<^verbatim>\<open>models/Game.ts\<close>;
  \<open>game_white\<close> and \<open>game_black\<close> are \<^verbatim>\<open>white.username\<close> and \<^verbatim>\<open>black.username\<close>.
\<close>

record Game =
  game_id :: string
  game_pgn :: string
  game_white :: string
  game_black :: string

datatype classification = excellent | good | inaccuracy | mistake | blunder

record Move =
  san :: string
  fen :: string
  moveNumber :: nat
  isWhiteMove :: bool
  evaluation :: "real option"
  bestMove :: "string option"
  classification :: "classification option"

text \<open>
  The library chess.js is a collaborator. \<open>loadPgn p\<close> stands for
  \<^verbatim>\<open>chess.loadPgn(p); chess.history({ verbose: true })\<close>: the list of the pairs
  \<^verbatim>\<open>(move.san, move.after)\<close>, or \<open>None\<close> when the library throws.
\<close>

definition movesOfHistory :: "(string \<times> string) list \<Rightarrow> Move list" where
  "movesOfHistory history =
     map (\<lambda>(index, (s, after)).
            \<lparr>san = s, fen = after, moveNumber = index div 2 + 1, isWhiteMove = (index mod 2 = 0),
             evaluation = None, bestMove = None, classification = None\<rparr>)
         (enumerate 0 history)"

definition parseChessComGame ::
  "(string \<Rightarrow> (string \<times> string) list option) \<Rightarrow> ChessComGame \<Rightarrow> error + Game" where
  "parseChessComGame loadPgn chessComGame =
     (case loadPgn (pgn chessComGame) of
        None \<Rightarrow> Inl ParseError
      | Some history \<Rightarrow>
          Inr \<lparr>game_id = uuid chessComGame, game_pgn = pgn chessComGame,
               game_white = white_username chessComGame,
               game_black = black_username chessComGame\<rparr>)"

definition extractMovesFromPgn ::
  "(string \<Rightarrow> (string \<times> string) list option) \<Rightarrow> string \<Rightarrow> error + Move list" where
  "extractMovesFromPgn loadPgn p =
     (case loadPgn p of
        None \<Rightarrow> Inl ParseError
      | Some history \<Rightarrow> Inr (movesOfHistory history))"


section \<open>The cached-analysis loop of the \<^verbatim>\<open>/api/analyze\<close> handler\<close>

text \<open>
  What the loop consumes from outside: chess.js, \<^verbatim>\<open>AIGameAnalyzer.analyzeGame\<close> (it
  calls a remote language model and may throw), the JSON codec, and the clock;
  \<open>Date_now E i\<close> is the time at which the analysis of the game at index \<open>i\<close> is stored.
  \<open>'a\<close> is \<^verbatim>\<open>GameAnalysis\<close>; every value of it is an object, hence truthy.
\<close>

record ('a, 'j) collaborators =
  chess_loadPgn :: "string \<Rightarrow> (string \<times> string) list option"
  aiAnalyzeGame :: "Game \<Rightarrow> string \<Rightarrow> error + 'a"
  JSON_stringify :: "'a \<Rightarrow> 'j"
  JSON_parse :: "'j \<Rightarrow> 'a option"
  Date_now :: "nat \<Rightarrow> int"

text \<open>
  The variables of the loop, the service it writes to, and a log of the calls made to the
  parser, to the analyzer and to \<^verbatim>\<open>cacheAnalysis\<close> (the log is not in the source: it
  plays the part of a spy on these three functions).
\<close>

datatype call = ParseCall string | AnalyzeCall string | StoreCall string

record ('a, 'p, 'j) batch =
  analyses :: "'a list"
  cachedCount :: nat
  analyzedCount :: nat
  service :: "('p, 'j) CacheService"
  calls :: "call list"

text \<open>
  The body of the \<^verbatim>\<open>try\<close> block for the game at index \<open>i\<close>: the exception that leaves
  it, if any, and the state it leaves behind. The progress events sent to the browser are
  left out.
\<close>

definition tryGame ::
  "('a, 'j) collaborators \<Rightarrow> (string \<rightharpoonup> 'a) \<Rightarrow> string \<Rightarrow> nat \<Rightarrow> ChessComGame \<Rightarrow>
     ('a, 'p, 'j) batch \<Rightarrow> error option \<times> ('a, 'p, 'j) batch" where
  "tryGame E cachedAnalyses username i rawGame st =
     (let st1 = st\<lparr>calls := calls st @ [ParseCall (uuid rawGame)]\<rparr> in
      case parseChessComGame (chess_loadPgn E) rawGame of
        Inl e \<Rightarrow> (Some e, st1)
      | Inr game \<Rightarrow>
          (case cachedAnalyses (uuid rawGame) of
             Some cachedAnalysis \<Rightarrow>
               (None, st1\<lparr>analyses := analyses st1 @ [cachedAnalysis],
                          cachedCount := cachedCount st1 + 1\<rparr>)
           | None \<Rightarrow>
               (let st2 = st1\<lparr>calls := calls st1 @ [AnalyzeCall (game_id game)]\<rparr> in
                case aiAnalyzeGame E game username of
                  Inl e \<Rightarrow> (Some e, st2)
                | Inr analysis' \<Rightarrow>
                    (None, st2\<lparr>analyses := analyses st2 @ [analysis'],
                               analyzedCount := analyzedCount st2 + 1,
                               service := cacheAnalysis (JSON_stringify E) (service st2)
                                            (uuid rawGame) username analysis' (Date_now E i),
                               calls := calls st2 @ [StoreCall (uuid rawGame)]\<rparr>))))"

text \<open>The \<^verbatim>\<open>for\<close> loop: the \<^verbatim>\<open>catch\<close> clause logs a warning and goes on.\<close>

fun analyzeLoop ::
  "('a, 'j) collaborators \<Rightarrow> (string \<rightharpoonup> 'a) \<Rightarrow> string \<Rightarrow> nat \<Rightarrow> ChessComGame list \<Rightarrow>
     ('a, 'p, 'j) batch \<Rightarrow> ('a, 'p, 'j) batch" where
  "analyzeLoop E cachedAnalyses username i [] st = st"
| "analyzeLoop E cachedAnalyses username i (rawGame # rest) st =
     analyzeLoop E cachedAnalyses username (Suc i) rest
       (snd (tryGame E cachedAnalyses username i rawGame st))"

definition startBatch :: "('p, 'j) CacheService \<Rightarrow> ('a, 'p, 'j) batch" where
  "startBatch c = \<lparr>analyses = [], cachedCount = 0, analyzedCount = 0, service = c, calls = []\<rparr>"

text \<open>
  The lookup before the loop: \<^verbatim>\<open>gameUuids = rawGames.map(g => g.uuid)\<close> and
  \<^verbatim>\<open>cachedAnalyses = await chessComService.getCachedAnalyses(username, gameUuids)\<close>.
\<close>

definition cachedAnalysesOf ::
  "('a, 'j) collaborators \<Rightarrow> ('p, 'j) CacheService \<Rightarrow> string \<Rightarrow> ChessComGame list \<Rightarrow>
     (string \<rightharpoonup> 'a)" where
  "cachedAnalysesOf E c username rawGames =
     getCachedAnalyses (JSON_parse E) c username (map uuid rawGames)"

definition analyzeBatch ::
  "('a, 'j) collaborators \<Rightarrow> ('p, 'j) CacheService \<Rightarrow> string \<Rightarrow> ChessComGame list \<Rightarrow>
     ('a, 'p, 'j) batch" where
  "analyzeBatch E c username rawGames =
     (let cachedAnalyses = cachedAnalysesOf E c username rawGames
      in analyzeLoop E cachedAnalyses username 0 rawGames (startBatch c))"


text \<open>
  Three readings of one iteration of the handler loop, used to state its properties.
  \<open>throws\<close>: an exception leaves the \<^verbatim>\<open>try\<close> block, because the PGN does not parse
  or because the game has no cached analysis and the analyzer fails. \<open>resolved\<close>: the
  analysis that the iteration pushes when nothing is thrown, the cached one for a hit and
  the newly computed one for a miss. The last three functions project the log of calls.
\<close>

definition throws ::
  "('a, 'j) collaborators \<Rightarrow> (string \<rightharpoonup> 'a) \<Rightarrow> string \<Rightarrow> ChessComGame \<Rightarrow> bool" where
  "throws E cachedAnalyses username rawGame =
     (case parseChessComGame (chess_loadPgn E) rawGame of
        Inl e \<Rightarrow> True
      | Inr game \<Rightarrow> cachedAnalyses (uuid rawGame) = None \<and> isl (aiAnalyzeGame E game username))"

definition resolved ::
  "('a, 'j) collaborators \<Rightarrow> (string \<rightharpoonup> 'a) \<Rightarrow> string \<Rightarrow> ChessComGame \<Rightarrow> 'a" where
  "resolved E cachedAnalyses username rawGame =
     (case cachedAnalyses (uuid rawGame) of
        Some cachedAnalysis \<Rightarrow> cachedAnalysis
      | None \<Rightarrow>
          projr (aiAnalyzeGame E (projr (parseChessComGame (chess_loadPgn E) rawGame)) username))"

definition parseCalls :: "call list \<Rightarrow> string list" where
  "parseCalls cs = concat (map (\<lambda>x. case x of ParseCall i \<Rightarrow> [i] | _ \<Rightarrow> []) cs)"

definition analyzeCalls :: "call list \<Rightarrow> string list" where
  "analyzeCalls cs = concat (map (\<lambda>x. case x of AnalyzeCall i \<Rightarrow> [i] | _ \<Rightarrow> []) cs)"

definition storeCalls :: "call list \<Rightarrow> string list" where
  "storeCalls cs = concat (map (\<lambda>x. case x of StoreCall i \<Rightarrow> [i] | _ \<Rightarrow> []) cs)"


section \<open>\<^verbatim>\<open>GameAnalyzer.analyzeGame\<close>\<close>

text \<open>
  The heuristic evaluator and the board of chess.js are collaborators: \<open>e_start\<close> is the
  position after \<^verbatim>\<open>chess.reset()\<close>, \<open>e_move\<close> is \<^verbatim>\<open>chess.move\<close> (\<open>None\<close> when it
  throws, the position then stays as it was), \<open>e_fen\<close> is \<^verbatim>\<open>chess.fen()\<close> and
  \<open>e_evaluateMove\<close> is \<^verbatim>\<open>MoveAnalyzer.evaluateMove\<close> (\<open>None\<close> when it throws).
\<close>

record MoveEvaluation =
  ev_move :: string
  ev_evaluation :: real
  ev_classification :: classification
  ev_bestMove :: "string option"
  ev_explanation :: string

record 'pos engine =
  e_loadPgn :: "string \<Rightarrow> (string \<times> string) list option"
  e_start :: 'pos
  e_move :: "'pos \<Rightarrow> string \<Rightarrow> 'pos option"
  e_fen :: "'pos \<Rightarrow> string"
  e_evaluateMove :: "string \<Rightarrow> string \<Rightarrow> string \<Rightarrow> MoveEvaluation option"

datatype color = White | Black

text \<open>
  \<^verbatim>\<open>interface GameAnalysis\<close>, without the fields \<^verbatim>\<open>mistakes\<close>, \<^verbatim>\<open>recommendations\<close>,
  \<^verbatim>\<open>openingName\<close> and \<^verbatim>\<open>endgameType\<close>, which are computed from the analysed moves and
  the PGN by code that does not throw and does not touch the accuracy. A JavaScript
  number is a double: the sum of the scores is a small integer and is exact, the quotient
  is modelled by the real quotient.
\<close>

record GameAnalysis =
  gameId :: string
  moves :: "Move list"
  playerColor :: color
  overallAccuracy :: real

definition getPlayerColor :: "Game \<Rightarrow> string \<Rightarrow> color" where
  "getPlayerColor game playerUsername = (if game_white game = playerUsername then White else Black)"

definition isPlayerMove :: "Move \<Rightarrow> color \<Rightarrow> bool" where
  "isPlayerMove move pc = ((pc = White \<and> isWhiteMove move) \<or> (pc = Black \<and> \<not> isWhiteMove move))"

fun calculateMoveAccuracy :: "classification option \<Rightarrow> nat" where
  "calculateMoveAccuracy (Some excellent) = 100"
| "calculateMoveAccuracy (Some good) = 90"
| "calculateMoveAccuracy (Some inaccuracy) = 70"
| "calculateMoveAccuracy (Some mistake) = 50"
| "calculateMoveAccuracy (Some blunder) = 20"
| "calculateMoveAccuracy None = 80"

record 'pos progress =
  chess :: 'pos
  analyzedMoves :: "Move list"
  totalAccuracy :: nat
  moveCount :: nat

text \<open>The callback of \<^verbatim>\<open>moves.forEach\<close>.\<close>

definition analyzeMove :: "'pos engine \<Rightarrow> color \<Rightarrow> Move \<Rightarrow> 'pos progress \<Rightarrow> 'pos progress" where
  "analyzeMove K pc move st =
     (let beforeFen = e_fen K (chess st) in
      case e_move K (chess st) (san move) of
        None \<Rightarrow> st\<lparr>analyzedMoves := analyzedMoves st @ [move]\<rparr>
      | Some pos' \<Rightarrow>
          (let st1 = st\<lparr>chess := pos'\<rparr> in
           if isPlayerMove move pc
           then (case e_evaluateMove K beforeFen (san move) (e_fen K pos') of
                   None \<Rightarrow> st1\<lparr>analyzedMoves := analyzedMoves st1 @ [move]\<rparr>
                 | Some ev \<Rightarrow>
                     st1\<lparr>analyzedMoves := analyzedMoves st1 @
                            [move\<lparr>evaluation := Some (ev_evaluation ev),
                                  bestMove := ev_bestMove ev,
                                  classification := Some (ev_classification ev)\<rparr>],
                         totalAccuracy := totalAccuracy st1 +
                            calculateMoveAccuracy (Some (ev_classification ev)),
                         moveCount := moveCount st1 + 1\<rparr>)
           else st1\<lparr>analyzedMoves := analyzedMoves st1 @ [move]\<rparr>))"

definition analyzeGame :: "'pos engine \<Rightarrow> Game \<Rightarrow> string \<Rightarrow> error + GameAnalysis" where
  "analyzeGame K game playerUsername =
     (case extractMovesFromPgn (e_loadPgn K) (game_pgn game) of
        Inl e \<Rightarrow> Inl e
      | Inr ms \<Rightarrow>
          (let pc = getPlayerColor game playerUsername;
               st = fold (analyzeMove K pc) ms
                      \<lparr>chess = e_start K, analyzedMoves = [], totalAccuracy = 0, moveCount = 0\<rparr>
           in Inr \<lparr>gameId = game_id game, moves = analyzedMoves st, playerColor = pc,
                   overallAccuracy =
                     (if moveCount st > 0 then real (totalAccuracy st) / real (moveCount st)
                      else 0)\<rparr>))"

text \<open>The scores of the moves of an analysis that carry a classification.\<close>

definition scores :: "Move list \<Rightarrow> nat list" where
  "scores ms = map (\<lambda>m. calculateMoveAccuracy (classification m))
                 (filter (\<lambda>m. classification m \<noteq> None) ms)"

text \<open>
  The bookkeeping of the \<^verbatim>\<open>forEach\<close> loop: the running total and the counter agree with
  the classified moves collected so far, and only moves of the player are classified.
\<close>

definition tally :: "color \<Rightarrow> 'pos progress \<Rightarrow> bool" where
  "tally pc st \<longleftrightarrow>
     totalAccuracy st = sum_list (scores (analyzedMoves st)) \<and>
     moveCount st = length (scores (analyzedMoves st)) \<and>
     (\<forall>m \<in> set (analyzedMoves st). classification m \<noteq> None \<longrightarrow> isPlayerMove m pc)"


text \<open>
  The claim speaks of the player's successfully evaluated moves. They are read off the
  game here without the accumulators of the loop: the plies of the PGN are played from
  the start position, a ply that the board refuses is passed over, the plies at even
  index are White's, and a ply of the player counts when the evaluator returns a verdict
  on it. \<open>playerEvaluations K w k pos plies\<close> lists these verdicts in order; \<open>w\<close> says
  that the player has the white pieces, \<open>k\<close> is the index of the first ply of \<open>plies\<close>
  and \<open>pos\<close> the position before it.
\<close>

fun playerEvaluations ::
  "'pos engine \<Rightarrow> bool \<Rightarrow> nat \<Rightarrow> 'pos \<Rightarrow> (string \<times> string) list \<Rightarrow> MoveEvaluation list" where
  "playerEvaluations K w k pos [] = []"
| "playerEvaluations K w k pos ((s, after) # rest) =
     (case e_move K pos s of
        None \<Rightarrow> playerEvaluations K w (Suc k) pos rest
      | Some pos' \<Rightarrow>
          (if even k = w
           then (case e_evaluateMove K (e_fen K pos) s (e_fen K pos') of
                   None \<Rightarrow> []
                 | Some ev \<Rightarrow> [ev])
           else []) @
          playerEvaluations K w (Suc k) pos' rest)"

text \<open>The classifications that the moves of an analysis carry, in order.\<close>

definition classified :: "Move list \<Rightarrow> classification option list" where
  "classified ms = map classification (filter (\<lambda>m. classification m \<noteq> None) ms)"


section \<open>Example data\<close>

text \<open>Concrete games and collaborators on which the properties below are exercised.\<close>

definition exampleGame :: "string \<Rightarrow> string \<Rightarrow> ChessComGame" where
  "exampleGame i p =
     \<lparr>url = ''https://www.chess.com/game/live/'' @ i, pgn = p, end_time = 1729000000,
      uuid = i, white_username = ''Alice'', black_username = ''bob''\<rparr>"

definition examplePgn :: string where
  "examplePgn = ''1. e4 e5 2. Qh5''"

definition exampleLoadPgn :: "string \<Rightarrow> (string \<times> string) list option" where
  "exampleLoadPgn p =
     (if p = examplePgn then Some [(''e4'', ''fen1''), (''e5'', ''fen2''), (''Qh5'', ''fen3'')]
      else None)"

definition exampleCollaborators :: "(string, string) collaborators" where
  "exampleCollaborators =
     \<lparr>chess_loadPgn = exampleLoadPgn,
      aiAnalyzeGame = (\<lambda>game u. if game_id game = ''g-unanalyzable'' then Inl EvaluationError
                                 else Inr (''analysis of '' @ game_id game @ '' for '' @ u)),
      JSON_stringify = (\<lambda>a. a),
      JSON_parse = Some,
      Date_now = (\<lambda>i. 1000 + int i)\<rparr>"

definition exampleStore :: "(string, string) CacheService" where
  "exampleStore =
     cacheAnalysis (\<lambda>a. a)
       (cacheAnalysis (\<lambda>a. a) emptyCache ''g1'' ''bob'' ''stored analysis of g1'' 1)
       ''g3'' ''bob'' ''stored analysis of g3'' 2"

definition exampleGames :: "ChessComGame list" where
  "exampleGames =
     [exampleGame ''g1'' examplePgn, exampleGame ''g2'' examplePgn, exampleGame ''g3'' examplePgn,
      exampleGame ''g4'' examplePgn, exampleGame ''g5'' examplePgn]"

definition exampleApi :: "nat \<Rightarrow> string \<Rightarrow> response" where
  "exampleApi n url' =
     (if n = 0 \<and> url' = ''https://api.chess.com/pub/player/Alice/games/2024/09''
      then Archive [exampleGame ''g1'' examplePgn, exampleGame ''g2'' examplePgn]
      else NotOk)"

definition exampleEngine :: "nat engine" where
  "exampleEngine =
     \<lparr>e_loadPgn = exampleLoadPgn,
      e_start = 0,
      e_move = (\<lambda>pos s. Some (Suc pos)),
      e_fen = (\<lambda>pos. ''position '' @ digits pos),
      e_evaluateMove = (\<lambda>before s after.
         Some \<lparr>ev_move = s, ev_evaluation = 0,
               ev_classification = (if s = ''e4'' then excellent else mistake),
               ev_bestMove = None, ev_explanation = ''evaluated''\<rparr>)\<rparr>"


section \<open>Properties of the user profile cache\<close>

text \<open>
  Claim C6, as the specification states it, is refuted at the boundary: a profile stored at
  time 1000 and read at time 3601000 has the age \<open>USER_PROFILE_TTL\<close> exactly, and the
  read still answers the profile.
\<close>

theorem profile_boundary_counterexample:
  "(3601000::int) - 1000 \<ge> USER_PROFILE_TTL \<and>
   userProfileCache
     (cacheUserProfile (emptyCache :: (string, string) CacheService) ''Alice'' ''profile'' 1000)
     (toLowerCase ''alice'')
     = Some \<lparr>data = ''profile'', timestamp = 1000, expiresAt = 1000 + USER_PROFILE_TTL\<rparr> \<and>
   fst (getCachedUserProfile
          (cacheUserProfile (emptyCache :: (string, string) CacheService) ''Alice'' ''profile'' 1000)
          ''alice'' 3601000) = Some ''profile''"
  by (simp add: getCachedUserProfile_def cacheUserProfile_def emptyCache_def USER_PROFILE_TTL_def
      toLowerCase_def toLowerChar_def)

text \<open>
  Claim C6, amended: the profile read answers absent exactly when there is no entry under
  the lowercased username or the entry is strictly older than \<open>USER_PROFILE_TTL\<close>
  (\<open>now - storedAt > USER_PROFILE_TTL\<close>); an entry that has expired in this sense is
  deleted; in every other case the stored profile is answered unchanged and the cache is
  left as it was. The entry is one written by \<open>cacheUserProfile\<close>, whose expiry time is
  its time stamp plus the TTL.
\<close>

theorem getCachedUserProfile_expiry:
  "(userProfileCache c (toLowerCase u) = None \<longrightarrow> getCachedUserProfile c u now = (None, c)) \<and>
   (userProfileCache c (toLowerCase u) = Some e \<and> expiresAt e = timestamp e + USER_PROFILE_TTL \<longrightarrow>
      (fst (getCachedUserProfile c u now) = None) = (now - timestamp e > USER_PROFILE_TTL) \<and>
      (now - timestamp e > USER_PROFILE_TTL \<longrightarrow>
         snd (getCachedUserProfile c u now) =
           c\<lparr>userProfileCache := (userProfileCache c)(toLowerCase u := None)\<rparr>) \<and>
      (now - timestamp e \<le> USER_PROFILE_TTL \<longrightarrow>
         getCachedUserProfile c u now = (Some (data e), c)))"
  by (auto simp: getCachedUserProfile_def)

theorem getCachedUserProfile_expiry_witness:
  "getCachedUserProfile (emptyCache :: (string, string) CacheService) ''alice'' 5000 =
     (None, emptyCache) \<and>
   fst (getCachedUserProfile
          (cacheUserProfile (emptyCache :: (string, string) CacheService) ''Alice'' ''profile'' 1000)
          ''ALICE'' 3601001) = None \<and>
   userProfileCache
     (snd (getCachedUserProfile
             (cacheUserProfile (emptyCache :: (string, string) CacheService) ''Alice'' ''profile''
                1000)
             ''ALICE'' 3601001))
     ''alice'' = None \<and>
   getCachedUserProfile
     (cacheUserProfile (emptyCache :: (string, string) CacheService) ''Alice'' ''profile'' 1000)
     ''ALICE'' 3601000 =
     (Some ''profile'',
      cacheUserProfile (emptyCache :: (string, string) CacheService) ''Alice'' ''profile'' 1000)"
proof -
  let ?c = "cacheUserProfile (emptyCache :: (string, string) CacheService) ''Alice'' ''profile'' 1000"
  let ?e = "\<lparr>data = ''profile'', timestamp = 1000, expiresAt = 1000 + USER_PROFILE_TTL\<rparr>"
  have none: "userProfileCache (emptyCache :: (string, string) CacheService) (toLowerCase ''alice'') = None"
    by (simp add: emptyCache_def)
  have some: "userProfileCache ?c (toLowerCase ''ALICE'') = Some ?e \<and>
              expiresAt ?e = timestamp ?e + USER_PROFILE_TTL"
    by (simp add: cacheUserProfile_def toLowerCase_def toLowerChar_def)
  have low: "toLowerCase ''ALICE'' = ''alice''"
    by (simp add: toLowerCase_def toLowerChar_def)
  from getCachedUserProfile_expiry [where c = emptyCache and u = "''alice''" and now = 5000] none
  have 1: "getCachedUserProfile (emptyCache :: (string, string) CacheService) ''alice'' 5000 =
             (None, emptyCache)"
    by blast
  from getCachedUserProfile_expiry [where c = ?c and u = "''ALICE''" and e = ?e and now = 3601001] some
  have 2: "fst (getCachedUserProfile ?c ''ALICE'' 3601001) = None \<and>
           snd (getCachedUserProfile ?c ''ALICE'' 3601001) =
             ?c\<lparr>userProfileCache := (userProfileCache ?c)(toLowerCase ''ALICE'' := None)\<rparr>"
    by (simp add: USER_PROFILE_TTL_def)
  from getCachedUserProfile_expiry [where c = ?c and u = "''ALICE''" and e = ?e and now = 3601000] some
  have 3: "getCachedUserProfile ?c ''ALICE'' 3601000 = (Some ''profile'', ?c)"
    by (simp add: USER_PROFILE_TTL_def)
  from 2 have "userProfileCache (snd (getCachedUserProfile ?c ''ALICE'' 3601001)) ''alice'' = None"
    by (simp add: low)
  with 1 2 3 show ?thesis by blast
qed


section \<open>Properties of the monthly games cache\<close>

text \<open>
  Claim C5: the TTL class of a monthly batch is decided when it is read, by comparing the
  year and month of the entry with the calendar year and month at the time of the read.
  An entry for the current month whose age exceeds five minutes is removed and reported
  absent, however far it is from the 24 hours; an entry for another month whose age is
  under the 24 hours is served, also when more than five minutes have passed.
\<close>

theorem getCachedMonthlyGames_ttl:
  assumes "monthlyGamesCache c (monthlyKey u y m) = Some e"
    and "expiresAt e = timestamp e + MONTHLY_GAMES_TTL"
  shows "(y = fst (localDate now) \<and> m = snd (localDate now) + 1 \<and> now - timestamp e > 300000 \<longrightarrow>
            getCachedMonthlyGames localDate c u y m now =
              (None, c\<lparr>monthlyGamesCache := (monthlyGamesCache c)(monthlyKey u y m := None)\<rparr>)) \<and>
         (\<not> (y = fst (localDate now) \<and> m = snd (localDate now) + 1) \<and>
          now - timestamp e < MONTHLY_GAMES_TTL \<longrightarrow>
            getCachedMonthlyGames localDate c u y m now = (Some (data e), c))"
  using assms by (auto simp: getCachedMonthlyGames_def Let_def)

theorem getCachedMonthlyGames_ttl_witness:
  "fst (getCachedMonthlyGames (\<lambda>t. (2024, 9))
          (cacheMonthlyGames (emptyCache :: (string, string) CacheService) ''Alice'' 2024 10
             [exampleGame ''g1'' examplePgn] 1000)
          ''alice'' 2024 10 601000) = None \<and>
   monthlyGamesCache
     (snd (getCachedMonthlyGames (\<lambda>t. (2024, 9))
             (cacheMonthlyGames (emptyCache :: (string, string) CacheService) ''Alice'' 2024 10
                [exampleGame ''g1'' examplePgn] 1000)
             ''alice'' 2024 10 601000))
     (monthlyKey ''alice'' 2024 10) = None \<and>
   fst (getCachedMonthlyGames (\<lambda>t. (2024, 9))
          (cacheMonthlyGames (emptyCache :: (string, string) CacheService) ''Alice'' 2024 9
             [exampleGame ''g1'' examplePgn] 1000)
          ''alice'' 2024 9 601000) = Some [exampleGame ''g1'' examplePgn]"
proof -
  let ?e = "\<lparr>data = [exampleGame ''g1'' examplePgn], timestamp = 1000,
             expiresAt = 1000 + MONTHLY_GAMES_TTL\<rparr>"
  let ?cur = "cacheMonthlyGames (emptyCache :: (string, string) CacheService) ''Alice'' 2024 10
                [exampleGame ''g1'' examplePgn] 1000"
  let ?past = "cacheMonthlyGames (emptyCache :: (string, string) CacheService) ''Alice'' 2024 9
                [exampleGame ''g1'' examplePgn] 1000"
  have key: "monthlyKey ''Alice'' y m = monthlyKey ''alice'' y m" for y m
    by (simp add: monthlyKey_def toLowerCase_def toLowerChar_def)
  have cur: "monthlyGamesCache ?cur (monthlyKey ''alice'' 2024 10) = Some ?e"
    by (simp add: cacheMonthlyGames_def key)
  have past: "monthlyGamesCache ?past (monthlyKey ''alice'' 2024 9) = Some ?e"
    by (simp add: cacheMonthlyGames_def key)
  have exp: "expiresAt ?e = timestamp ?e + MONTHLY_GAMES_TTL"
    by simp
  from getCachedMonthlyGames_ttl [OF cur exp, where localDate = "\<lambda>t. (2024, 9)" and now = 601000]
  have 1: "getCachedMonthlyGames (\<lambda>t. (2024, 9)) ?cur ''alice'' 2024 10 601000 =
             (None, ?cur\<lparr>monthlyGamesCache :=
                            (monthlyGamesCache ?cur)(monthlyKey ''alice'' 2024 10 := None)\<rparr>)"
    by simp
  from getCachedMonthlyGames_ttl [OF past exp, where localDate = "\<lambda>t. (2024, 9)" and now = 601000]
  have 2: "getCachedMonthlyGames (\<lambda>t. (2024, 9)) ?past ''alice'' 2024 9 601000 =
             (Some [exampleGame ''g1'' examplePgn], ?past)"
    by (simp add: MONTHLY_GAMES_TTL_def)
  show ?thesis by (simp add: 1 2)
qed


section \<open>Properties of the analysis table\<close>

lemma find_append_case:
  "find P (xs @ ys) = (case find P xs of None \<Rightarrow> find P ys | Some x \<Rightarrow> Some x)"
  by (induction xs) auto

lemma find_filter_neq:
  "find (\<lambda>r. game_uuid r = g' \<and> Q r) (filter (\<lambda>r. game_uuid r \<noteq> g) rows) =
     (if g' = g then None else find (\<lambda>r. game_uuid r = g' \<and> Q r) rows)"
  by (induction rows) auto

text \<open>Reading after a write: the row written for \<open>g\<close> is the only row of \<open>g\<close>.\<close>

lemma getCachedAnalysis_cacheAnalysis:
  "getCachedAnalysis dec (cacheAnalysis enc c g u a t) g' u' =
     (if g' = g then (if toLowerCase u' = toLowerCase u then dec (enc a) else None)
      else getCachedAnalysis dec c g' u')"
  by (auto simp: getCachedAnalysis_def cacheAnalysis_def find_append_case find_filter_neq
      split: option.splits)

lemma rows_of_cacheAnalysis:
  "filter (\<lambda>r. game_uuid r = g) (analysis (cacheAnalysis enc c g u a t)) =
     [\<lparr>game_uuid = g, a_username = toLowerCase u, analysis_data = enc a, a_cached_at = t\<rparr>]"
proof -
  have "filter (\<lambda>r. game_uuid r = g) (filter (\<lambda>r. game_uuid r \<noteq> g) rows) = []"
    for rows :: "'x analysis_row list"
    by (induction rows) auto
  then show ?thesis by (simp add: cacheAnalysis_def)
qed

lemma distinct_cacheAnalysis:
  "distinct (map game_uuid (analysis c)) \<Longrightarrow>
   distinct (map game_uuid (analysis (cacheAnalysis enc c g u a t)))"
  by (auto simp: cacheAnalysis_def distinct_map_filter)

lemma fold_setRow_other:
  "\<forall>r \<in> set rows. game_uuid r \<noteq> g \<Longrightarrow> fold (setRow dec) rows m g = m g"
  by (induction rows arbitrary: m) (auto simp: setRow_def split: option.splits)

lemma getCachedAnalyses_cacheAnalysis_same:
  assumes "g \<in> set gs" and "toLowerCase u' = toLowerCase u"
  shows "getCachedAnalyses dec (cacheAnalysis enc c g u a t) u' gs g = dec (enc a)"
proof -
  have gs: "gs \<noteq> []" using assms by auto
  let ?P = "\<lambda>r. a_username r = toLowerCase u' \<and> game_uuid r \<in> set gs"
  let ?old = "filter ?P (filter (\<lambda>r. game_uuid r \<noteq> g) (analysis c))"
  have old: "\<forall>r \<in> set ?old. game_uuid r \<noteq> g" by auto
  have "fold (setRow dec) ?old Map.empty g = None"
    using fold_setRow_other [OF old, of dec Map.empty] by simp
  then show ?thesis using assms gs
    by (auto simp: getCachedAnalyses_def cacheAnalysis_def setRow_def split: option.splits)
qed

text \<open>
  Claim C1, as the specification states it, is refuted: the analysis stored for
  \<open>alice\<close> under the game \<open>g1\<close> is gone once an analysis of the same game is stored for
  \<open>bob\<close>, because the primary key of the table is the game uuid alone.
\<close>

theorem analysis_key_counterexample:
  "toLowerCase ''alice'' \<noteq> toLowerCase ''bob'' \<and>
   getCachedAnalysis Some (cacheAnalysis (\<lambda>a. a) (emptyCache :: (string, string) CacheService)
           ''g1'' ''alice'' ''analysis for alice'' 1)
     ''g1'' ''alice'' = Some ''analysis for alice'' \<and>
   getCachedAnalysis Some
     (cacheAnalysis (\<lambda>a. a)
        (cacheAnalysis (\<lambda>a. a) (emptyCache :: (string, string) CacheService)
           ''g1'' ''alice'' ''analysis for alice'' 1)
        ''g1'' ''bob'' ''analysis for bob'' 2)
     ''g1'' ''alice'' = None"
  by (simp add: getCachedAnalysis_def cacheAnalysis_def emptyCache_def toLowerCase_def
      toLowerChar_def)

text \<open>
  Claim C1, amended: analysis records are keyed by the game uuid alone; the lowercased
  username is a column of the record and the reads select on it. For every game uuid \<open>g\<close>
  and usernames \<open>u1\<close>, \<open>u2\<close> that differ after lowercasing, after
  \<open>putAnalysis(g, u1, a1)\<close> and then \<open>putAnalysis(g, u2, a2)\<close> the read for
  \<open>(g, u2)\<close> answers \<open>a2\<close>, the read for \<open>(g, u1)\<close> answers absent, and the table
  holds exactly one record for \<open>g\<close>, the one written last: a put overwrites the record
  of its game and does not append to it.
\<close>

theorem cacheAnalysis_keyed_by_uuid:
  assumes "toLowerCase u1 \<noteq> toLowerCase u2" and "dec (enc a2) = Some a2"
  shows "getCachedAnalysis dec
           (cacheAnalysis enc (cacheAnalysis enc c g u1 a1 t1) g u2 a2 t2) g u2 = Some a2 \<and>
         getCachedAnalysis dec
           (cacheAnalysis enc (cacheAnalysis enc c g u1 a1 t1) g u2 a2 t2) g u1 = None \<and>
         filter (\<lambda>r. game_uuid r = g)
           (analysis (cacheAnalysis enc (cacheAnalysis enc c g u1 a1 t1) g u2 a2 t2)) =
           [\<lparr>game_uuid = g, a_username = toLowerCase u2, analysis_data = enc a2,
             a_cached_at = t2\<rparr>]"
  using assms by (simp add: getCachedAnalysis_cacheAnalysis rows_of_cacheAnalysis)

theorem cacheAnalysis_keyed_by_uuid_witness:
  "getCachedAnalysis Some
     (cacheAnalysis (\<lambda>a. a)
        (cacheAnalysis (\<lambda>a. a) (emptyCache :: (string, string) CacheService)
           ''g1'' ''alice'' ''analysis for alice'' 1)
        ''g1'' ''bob'' ''analysis for bob'' 2)
     ''g1'' ''bob'' = Some ''analysis for bob'' \<and>
   getCachedAnalysis Some
     (cacheAnalysis (\<lambda>a. a)
        (cacheAnalysis (\<lambda>a. a) (emptyCache :: (string, string) CacheService)
           ''g1'' ''alice'' ''analysis for alice'' 1)
        ''g1'' ''bob'' ''analysis for bob'' 2)
     ''g1'' ''alice'' = None \<and>
   filter (\<lambda>r. game_uuid r = ''g1'')
     (analysis (cacheAnalysis (\<lambda>a. a)
        (cacheAnalysis (\<lambda>a. a) (emptyCache :: (string, string) CacheService)
           ''g1'' ''alice'' ''analysis for alice'' 1)
        ''g1'' ''bob'' ''analysis for bob'' 2)) =
     [\<lparr>game_uuid = ''g1'', a_username = toLowerCase ''bob'',
       analysis_data = ''analysis for bob'', a_cached_at = 2\<rparr>]"
proof -
  have h1: "toLowerCase ''alice'' \<noteq> toLowerCase ''bob''"
    by (simp add: toLowerCase_def toLowerChar_def)
  have h2: "Some ((\<lambda>a. a) ''analysis for bob'') = Some ''analysis for bob''"
    by simp
  from cacheAnalysis_keyed_by_uuid [OF h1, where dec = Some and enc = "\<lambda>a. a", OF h2,
      where c = emptyCache and g = "''g1''" and ?a1.0 = "''analysis for alice''" and ?t1.0 = 1
        and ?t2.0 = 2]
  show ?thesis by blast
qed

text \<open>
  Claim C7: two usernames that are equal up to letter case address the same cache
  entries. Writes under either casing produce the same state, reads under either casing
  give the same answer, and an analysis stored under one casing is answered by the point
  read and by the bulk read under the other. The same holds for the profile cache, for
  the key of a monthly batch and for the row of a game, whose key is the uuid of the game
  as it is.
\<close>

theorem case_insensitive_keys:
  assumes "toLowerCase u1 = toLowerCase u2"
  shows "cacheAnalysis enc c g u1 a t = cacheAnalysis enc c g u2 a t \<and>
         getCachedAnalysis dec c g u1 = getCachedAnalysis dec c g u2 \<and>
         getCachedAnalyses dec c u1 gs = getCachedAnalyses dec c u2 gs \<and>
         getCachedAnalysis dec (cacheAnalysis enc c g u1 a t) g u2 = dec (enc a) \<and>
         (g \<in> set gs \<longrightarrow>
            getCachedAnalyses dec (cacheAnalysis enc c g u1 a t) u2 gs g = dec (enc a)) \<and>
         cacheUserProfile c u1 p t = cacheUserProfile c u2 p t \<and>
         getCachedUserProfile c u1 t = getCachedUserProfile c u2 t \<and>
         monthlyKey u1 y m = monthlyKey u2 y m \<and>
         cacheGame ld encg c game u1 t = cacheGame ld encg c game u2 t \<and>
         g_uuid (last (games (cacheGame ld encg c game u1 t))) = uuid game"
proof -
  have 1: "cacheAnalysis enc c g u1 a t = cacheAnalysis enc c g u2 a t"
    using assms by (simp add: cacheAnalysis_def)
  have 2: "getCachedAnalysis dec c g u1 = getCachedAnalysis dec c g u2"
    using assms by (simp add: getCachedAnalysis_def)
  have 3: "getCachedAnalyses dec c u1 gs = getCachedAnalyses dec c u2 gs"
    using assms by (simp add: getCachedAnalyses_def)
  have 4: "getCachedAnalysis dec (cacheAnalysis enc c g u1 a t) g u2 = dec (enc a)"
    using assms by (simp add: getCachedAnalysis_cacheAnalysis)
  have 5: "g \<in> set gs \<longrightarrow>
           getCachedAnalyses dec (cacheAnalysis enc c g u1 a t) u2 gs g = dec (enc a)"
    using assms getCachedAnalyses_cacheAnalysis_same [of g gs u2 u1 dec enc c a t] by simp
  have 6: "cacheUserProfile c u1 p t = cacheUserProfile c u2 p t"
    using assms by (simp add: cacheUserProfile_def)
  have 7: "getCachedUserProfile c u1 t = getCachedUserProfile c u2 t"
    unfolding getCachedUserProfile_def assms by simp
  have 8: "monthlyKey u1 y m = monthlyKey u2 y m"
    using assms by (simp add: monthlyKey_def)
  have 9: "cacheGame ld encg c game u1 t = cacheGame ld encg c game u2 t"
    using assms by (simp add: cacheGame_def)
  have 10: "g_uuid (last (games (cacheGame ld encg c game u1 t))) = uuid game"
    by (simp add: cacheGame_def split: prod.splits)
  show ?thesis using 1 2 3 4 5 6 7 8 9 10 by blast
qed

theorem case_insensitive_keys_witness:
  "getCachedAnalysis Some
     (cacheAnalysis (\<lambda>a. a) (emptyCache :: (string, string) CacheService)
        ''g1'' ''Alice'' ''analysis'' 1)
     ''g1'' ''alice'' = Some ''analysis'' \<and>
   getCachedAnalyses Some
     (cacheAnalysis (\<lambda>a. a) (emptyCache :: (string, string) CacheService)
        ''g1'' ''Alice'' ''analysis'' 1)
     ''alice'' [''g0'', ''g1''] ''g1'' = Some ''analysis''"
proof -
  have h: "toLowerCase ''Alice'' = toLowerCase ''alice''"
    by (simp add: toLowerCase_def toLowerChar_def)
  from case_insensitive_keys [OF h, where dec = Some and enc = "\<lambda>a. a" and c = emptyCache
      and g = "''g1''" and a = "''analysis''" and t = 1 and gs = "[''g0'', ''g1'']" and p = "''profile''" and y = 2024 and m = 10
      and ld = "\<lambda>t. (2024, 9)" and encg = uuid and game = "exampleGame ''g1'' examplePgn"]
  have point: "getCachedAnalysis Some
      (cacheAnalysis (\<lambda>a. a) (emptyCache :: (string, string) CacheService)
         ''g1'' ''Alice'' ''analysis'' 1)
      ''g1'' ''alice'' = Some ''analysis''"
    and bulk: "''g1'' \<in> set [''g0'', ''g1''] \<longrightarrow>
      getCachedAnalyses Some
        (cacheAnalysis (\<lambda>a. a) (emptyCache :: (string, string) CacheService)
           ''g1'' ''Alice'' ''analysis'' 1)
        ''alice'' [''g0'', ''g1''] ''g1'' = Some ''analysis''"
    by blast+
  have "''g1'' \<in> set [''g0'', ''g1'']"
    by simp
  with point bulk show ?thesis by blast
qed

section \<open>Properties of the cache cleanup\<close>

text \<open>
  The scoped clears of the two tables delete the rows whose stored username is the
  lowercased argument and keep every other row; the unscoped clears empty the table.
\<close>

lemma clearGameCache_scoped:
  "u \<noteq> [] \<Longrightarrow>
   games (clearGameCache c (Some u)) = filter (\<lambda>r. g_username r \<noteq> toLowerCase u) (games c)"
  by (simp add: clearGameCache_def truthy_def)

lemma clearAnalysisCache_scoped:
  "u \<noteq> [] \<Longrightarrow>
   analysis (clearAnalysisCache c (Some u)) =
     filter (\<lambda>r. a_username r \<noteq> toLowerCase u) (analysis c)"
  by (simp add: clearAnalysisCache_def truthy_def)

lemma clear_unscoped:
  "games (clearGameCache c None) = [] \<and> analysis (clearAnalysisCache c None) = [] \<and>
   monthlyGamesCache (clearMonthlyGamesCache c None) = Map.empty"
  by (simp add: clearGameCache_def clearAnalysisCache_def clearMonthlyGamesCache_def truthy_def)

text \<open>
  Claim C9 fails on the monthly games cache: the scoped clear deletes every key that
  starts with the lowercased username, so clearing for \<open>bob\<close> also deletes the batch of
  the user \<open>bobby\<close>. The clears of the two tables compare the whole username.
\<close>

theorem clearMonthlyGamesCache_prefix:
  "toLowerCase ''bobby'' \<noteq> toLowerCase ''bob'' \<and>
   monthlyGamesCache
     (cacheMonthlyGames (emptyCache :: (string, string) CacheService) ''bobby'' 2024 10
        [exampleGame ''g1'' examplePgn] 1000)
     (monthlyKey ''bobby'' 2024 10) \<noteq> None \<and>
   monthlyGamesCache
     (clearMonthlyGamesCache
        (cacheMonthlyGames (emptyCache :: (string, string) CacheService) ''bobby'' 2024 10
           [exampleGame ''g1'' examplePgn] 1000)
        (Some ''bob''))
     (monthlyKey ''bobby'' 2024 10) = None"
  by (simp add: clearMonthlyGamesCache_def cacheMonthlyGames_def emptyCache_def monthlyKey_def
      truthy_def toLowerCase_def toLowerChar_def numberToString_def digits.simps)


section \<open>Properties of \<^verbatim>\<open>GameAnalyzer.analyzeGame\<close>\<close>

lemma calculateMoveAccuracy_range:
  "calculateMoveAccuracy k \<in> {100, 90, 80, 70, 50, 20}"
  by (cases k rule: calculateMoveAccuracy.cases) simp_all

lemma scores_range: "set (scores ms) \<subseteq> {100, 90, 80, 70, 50, 20}"
  using calculateMoveAccuracy_range by (auto simp: scores_def)

lemma scores_append: "scores (xs @ ys) = scores xs @ scores ys"
  by (simp add: scores_def)

lemma sum_list_scores_le: "sum_list (scores ms) \<le> 100 * length (scores ms)"
proof -
  have "\<And>x. x \<in> set (scores ms) \<Longrightarrow> x \<le> 100"
    using scores_range [of ms] by auto
  then have "sum_list (scores ms) \<le> sum_list (map (\<lambda>_. 100) (scores ms))"
    by (intro sum_list_mono [of "scores ms" "\<lambda>x. x" "\<lambda>_. 100", simplified]) auto
  then show ?thesis by (simp add: sum_list_triv)
qed

lemma tally_analyzeMove:
  assumes "tally pc st" and "classification move = None"
  shows "tally pc (analyzeMove K pc move st)"
  using assms
  by (auto simp: tally_def analyzeMove_def Let_def scores_append scores_def isPlayerMove_def
      split: option.splits)

lemma tally_fold:
  assumes "tally pc st" and "\<forall>m \<in> set ms. classification m = None"
  shows "tally pc (fold (analyzeMove K pc) ms st)"
  using assms by (induction ms arbitrary: st) (auto simp: tally_analyzeMove)

lemma movesOfHistory_unclassified: "\<forall>m \<in> set (movesOfHistory h). classification m = None"
  by (auto simp: movesOfHistory_def)

lemma analyzeGame_returns:
  "(\<exists>a. analyzeGame K game u = Inr a) \<longleftrightarrow> e_loadPgn K (game_pgn game) \<noteq> None"
  by (auto simp: analyzeGame_def extractMovesFromPgn_def Let_def split: option.splits)

text \<open>
  The loop against the direct reading of the game: the moves it collects are the moves
  it is given, in order, and the classifications it attaches are the verdicts on the
  player's evaluated moves.
\<close>

lemma analyzeMove_appends:
  "\<exists>m'. analyzedMoves (analyzeMove K pc m st) = analyzedMoves st @ [m'] \<and>
        san m' = san m \<and> fen m' = fen m \<and> moveNumber m' = moveNumber m \<and>
        isWhiteMove m' = isWhiteMove m"
  by (auto simp: analyzeMove_def Let_def split: option.splits)

lemma fold_analyzeMove_moves:
  "map san (analyzedMoves (fold (analyzeMove K pc) ms st)) =
     map san (analyzedMoves st) @ map san ms \<and>
   map fen (analyzedMoves (fold (analyzeMove K pc) ms st)) =
     map fen (analyzedMoves st) @ map fen ms \<and>
   map moveNumber (analyzedMoves (fold (analyzeMove K pc) ms st)) =
     map moveNumber (analyzedMoves st) @ map moveNumber ms \<and>
   map isWhiteMove (analyzedMoves (fold (analyzeMove K pc) ms st)) =
     map isWhiteMove (analyzedMoves st) @ map isWhiteMove ms"
proof (induction ms arbitrary: st)
  case Nil
  then show ?case by simp
next
  case (Cons m rest)
  obtain m' where "analyzedMoves (analyzeMove K pc m st) = analyzedMoves st @ [m']"
    and "san m' = san m" and "fen m' = fen m" and "moveNumber m' = moveNumber m"
    and "isWhiteMove m' = isWhiteMove m"
    using analyzeMove_appends by blast
  then show ?case
    using Cons.IH [of "analyzeMove K pc m st"] by simp
qed

lemma classified_append: "classified (xs @ ys) = classified xs @ classified ys"
  by (simp add: classified_def)

lemma scores_classified: "scores ms = map calculateMoveAccuracy (classified ms)"
  by (simp add: scores_def classified_def)

lemma analyzeMove_verdict:
  assumes "classification m = None"
  shows "chess (analyzeMove K pc m st) =
           (case e_move K (chess st) (san m) of None \<Rightarrow> chess st | Some pos' \<Rightarrow> pos')"
    and "classified (analyzedMoves (analyzeMove K pc m st)) =
         classified (analyzedMoves st) @
         (case e_move K (chess st) (san m) of
            None \<Rightarrow> []
          | Some pos' \<Rightarrow>
              if isWhiteMove m = (pc = White)
              then (case e_evaluateMove K (e_fen K (chess st)) (san m) (e_fen K pos') of
                      None \<Rightarrow> []
                    | Some ev \<Rightarrow> [Some (ev_classification ev)])
              else [])"
  using assms
  by (cases pc; auto simp: analyzeMove_def isPlayerMove_def Let_def classified_def
      split: option.splits)+

lemma fold_analyzeMove_verdicts:
  assumes "map san ms = map fst plies"
    and "map isWhiteMove ms = map even [k..<k + length plies]"
    and "\<forall>m \<in> set ms. classification m = None"
  shows "classified (analyzedMoves (fold (analyzeMove K pc) ms st)) =
         classified (analyzedMoves st) @
         map (\<lambda>ev. Some (ev_classification ev))
           (playerEvaluations K (pc = White) k (chess st) plies)"
  using assms
proof (induction plies arbitrary: ms k st)
  case Nil
  then show ?case by simp
next
  case (Cons p rest)
  obtain s after where p: "p = (s, after)"
    by (cases p)
  from Cons.prems(1) obtain m ms' where ms: "ms = m # ms'"
    by (cases ms) auto
  have range: "[k..<k + length (p # rest)] = k # [Suc k..<Suc k + length rest]"
    by (simp add: upt_rec)
  have "map isWhiteMove (m # ms') = map even (k # [Suc k..<Suc k + length rest])"
    using Cons.prems(2) unfolding ms range .
  then have white: "isWhiteMove m = even k"
    and whites: "map isWhiteMove ms' = map even [Suc k..<Suc k + length rest]"
    by (simp_all only: list.map list.inject)
  have m: "san m = s" "classification m = None"
    and rest: "map san ms' = map fst rest"
      "\<forall>x \<in> set ms'. classification x = None"
    using Cons.prems(1,3) unfolding ms p by simp_all
  let ?st = "analyzeMove K pc m st"
  have ih: "classified (analyzedMoves (fold (analyzeMove K pc) ms' ?st)) =
      classified (analyzedMoves ?st) @
      map (\<lambda>ev. Some (ev_classification ev))
        (playerEvaluations K (pc = White) (Suc k) (chess ?st) rest)"
    using rest(1) whites rest(2) by (rule Cons.IH)
  show ?case
    unfolding ms p
    by (simp add: ih analyzeMove_verdict [OF m(2)] m(1) white split: option.splits)
qed

lemma movesOfHistory_plies:
  "map san (movesOfHistory h) = map fst h"
  "map fen (movesOfHistory h) = map snd h"
  "map isWhiteMove (movesOfHistory h) = map even [0..<length h]"
  "map moveNumber (movesOfHistory h) = map (\<lambda>k. k div 2 + 1) [0..<length h]"
proof -
  have fsts: "map (\<lambda>x. fst (snd x)) (enumerate k xs) = map fst xs"
    for k and xs :: "(string \<times> string) list"
    by (induction xs arbitrary: k) auto
  have snds: "map (\<lambda>x. snd (snd x)) (enumerate k xs) = map snd xs"
    for k and xs :: "(string \<times> string) list"
    by (induction xs arbitrary: k) auto
  have idx: "map (\<lambda>x. f (fst x)) (enumerate k xs) = map f [k..<k + length xs]"
    for f :: "nat \<Rightarrow> 'b" and k and xs :: "(string \<times> string) list"
    by (induction xs arbitrary: k) (auto simp: upt_rec)
  show "map san (movesOfHistory h) = map fst h"
    using fsts [of 0 h] by (simp add: movesOfHistory_def comp_def case_prod_unfold)
  show "map fen (movesOfHistory h) = map snd h"
    using snds [of 0 h] by (simp add: movesOfHistory_def comp_def case_prod_unfold)
  show "map isWhiteMove (movesOfHistory h) = map even [0..<length h]"
    using idx [of even 0 h]
    by (simp add: movesOfHistory_def comp_def case_prod_unfold even_iff_mod_2_eq_zero)
  show "map moveNumber (movesOfHistory h) = map (\<lambda>k. k div 2 + 1) [0..<length h]"
    using idx [of "\<lambda>k. k div 2 + 1" 0 h]
    by (simp add: movesOfHistory_def comp_def case_prod_unfold)
qed

lemma calculateMoveAccuracy_table:
  "calculateMoveAccuracy (Some k) =
     (case k of excellent \<Rightarrow> 100 | good \<Rightarrow> 90 | inaccuracy \<Rightarrow> 70 | mistake \<Rightarrow> 50
      | blunder \<Rightarrow> 20)"
  by (cases k) simp_all

text \<open>
  Claim C10: for every game and player username for which \<open>analyzeGame\<close> returns, the
  overall accuracy lies in the closed interval from 0 to 100, and it is the arithmetic
  mean of the scores of the player's successfully evaluated moves, or exactly 0 when no
  move of the player was evaluated. The result is tied to the game and to the username:
  the player is White exactly when the username is that of the white side; the moves of
  the result are the plies of the PGN, those at even index being White's; the
  classifications they carry are the evaluator's verdicts on the player's evaluated
  moves, in order; and the score of a verdict is 100, 90, 70, 50 or 20 for excellent,
  good, inaccuracy, mistake and blunder (80 is the score of a missing classification,
  which no verdict has). \<open>analyzeGame\<close> returns whenever the PGN loads, see
  \<open>analyzeGame_returns\<close>, and \<open>h\<close> names the plies that the PGN loads to.
\<close>

theorem analyzeGame_overallAccuracy:
  assumes "analyzeGame K game u = Inr a"
    and "e_loadPgn K (game_pgn game) = Some h"
    and "evs = playerEvaluations K (game_white game = u) 0 (e_start K) h"
  shows "0 \<le> overallAccuracy a \<and> overallAccuracy a \<le> 100 \<and>
         set (scores (moves a)) \<subseteq> {100, 90, 80, 70, 50, 20} \<and>
         overallAccuracy a =
           (if scores (moves a) = [] then 0
            else real (sum_list (scores (moves a))) / real (length (scores (moves a)))) \<and>
         (\<forall>m \<in> set (moves a). classification m \<noteq> None \<longrightarrow> isPlayerMove m (playerColor a)) \<and>
         gameId a = game_id game \<and>
         playerColor a = (if game_white game = u then White else Black) \<and>
         map san (moves a) = map fst h \<and>
         map fen (moves a) = map snd h \<and>
         map isWhiteMove (moves a) = map even [0..<length h] \<and>
         map moveNumber (moves a) = map (\<lambda>k. k div 2 + 1) [0..<length h] \<and>
         map classification (filter (\<lambda>m. classification m \<noteq> None) (moves a)) =
           map (\<lambda>ev. Some (ev_classification ev)) evs \<and>
         overallAccuracy a =
           (if evs = [] then 0
            else real (sum_list (map (\<lambda>ev. case ev_classification ev of
                                              excellent \<Rightarrow> 100 | good \<Rightarrow> 90
                                            | inaccuracy \<Rightarrow> 70 | mistake \<Rightarrow> 50
                                            | blunder \<Rightarrow> 20) evs)) /
                 real (length evs))"
proof -
  define pc where "pc = getPlayerColor game u"
  define st0 :: "'a progress" where
    "st0 = \<lparr>chess = e_start K, analyzedMoves = [], totalAccuracy = 0, moveCount = 0\<rparr>"
  define st where "st = fold (analyzeMove K pc) (movesOfHistory h) st0"
  have a: "a = \<lparr>gameId = game_id game, moves = analyzedMoves st, playerColor = pc,
                overallAccuracy = (if moveCount st > 0
                                   then real (totalAccuracy st) / real (moveCount st) else 0)\<rparr>"
    using assms(1,2) unfolding analyzeGame_def extractMovesFromPgn_def Let_def st_def st0_def pc_def
    by (simp del: GameAnalysis.simps split: if_splits)
  have "tally pc st0"
    by (simp add: tally_def scores_def st0_def)
  then have t: "tally pc st"
    unfolding st_def using movesOfHistory_unclassified by (rule tally_fold)
  have mean: "overallAccuracy a =
           (if scores (moves a) = [] then 0
            else real (sum_list (scores (moves a))) / real (length (scores (moves a))))"
    using t by (simp add: a tally_def)
  have le: "real (sum_list (scores (moves a))) \<le> 100 * real (length (scores (moves a)))"
    using sum_list_scores_le [of "moves a"] by (metis of_nat_le_iff of_nat_mult of_nat_numeral)
  have up: "overallAccuracy a \<le> 100"
    using le by (simp add: mean divide_le_eq)
  have lo: "0 \<le> overallAccuracy a"
    by (simp add: mean)
  have pl: "\<forall>m \<in> set (moves a). classification m \<noteq> None \<longrightarrow> isPlayerMove m (playerColor a)"
    using t by (simp add: a tally_def)
  have gid: "gameId a = game_id game"
    by (simp add: a)
  have colour: "playerColor a = (if game_white game = u then White else Black)"
    by (simp add: a pc_def getPlayerColor_def)
  have white: "(pc = White) = (game_white game = u)"
    by (simp add: pc_def getPlayerColor_def)
  have plies: "map san (moves a) = map fst h" "map fen (moves a) = map snd h"
    "map isWhiteMove (moves a) = map even [0..<length h]"
    "map moveNumber (moves a) = map (\<lambda>k. k div 2 + 1) [0..<length h]"
    using fold_analyzeMove_moves [of K pc "movesOfHistory h" st0]
    unfolding st_def [symmetric]
    by (simp_all add: a movesOfHistory_plies st0_def)
  have "classified (analyzedMoves st) =
      classified (analyzedMoves st0) @
      map (\<lambda>ev. Some (ev_classification ev))
        (playerEvaluations K (pc = White) 0 (chess st0) h)"
    unfolding st_def
    using movesOfHistory_plies(1) [of h] movesOfHistory_plies(3) [of h]
      movesOfHistory_unclassified [of h]
    by (intro fold_analyzeMove_verdicts) simp_all
  then have cl: "classified (moves a) = map (\<lambda>ev. Some (ev_classification ev)) evs"
    by (simp add: a white assms(3) st0_def classified_def)
  have verdicts: "map classification (filter (\<lambda>m. classification m \<noteq> None) (moves a)) =
           map (\<lambda>ev. Some (ev_classification ev)) evs"
    using cl unfolding classified_def .
  have sc: "scores (moves a) =
      map (\<lambda>ev. case ev_classification ev of excellent \<Rightarrow> 100 | good \<Rightarrow> 90
                 | inaccuracy \<Rightarrow> 70 | mistake \<Rightarrow> 50 | blunder \<Rightarrow> 20) evs"
    by (simp add: scores_classified cl comp_def calculateMoveAccuracy_table)
  have mean_evs: "overallAccuracy a =
           (if evs = [] then 0
            else real (sum_list (map (\<lambda>ev. case ev_classification ev of
                                              excellent \<Rightarrow> 100 | good \<Rightarrow> 90
                                            | inaccuracy \<Rightarrow> 70 | mistake \<Rightarrow> 50
                                            | blunder \<Rightarrow> 20) evs)) /
                 real (length evs))"
    using mean unfolding sc by simp
  show ?thesis
    using lo up scores_range mean pl gid colour plies verdicts mean_evs by blast
qed

theorem analyzeGame_overallAccuracy_witness:
  "analyzeGame exampleEngine
     \<lparr>game_id = ''g1'', game_pgn = examplePgn, game_white = ''Alice'', game_black = ''bob''\<rparr>
     ''Alice'' =
   Inr \<lparr>gameId = ''g1'',
        moves = [\<lparr>san = ''e4'', fen = ''fen1'', moveNumber = 1, isWhiteMove = True,
                  evaluation = Some 0, bestMove = None, classification = Some excellent\<rparr>,
                 \<lparr>san = ''e5'', fen = ''fen2'', moveNumber = 1, isWhiteMove = False,
                  evaluation = None, bestMove = None, classification = None\<rparr>,
                 \<lparr>san = ''Qh5'', fen = ''fen3'', moveNumber = 2, isWhiteMove = True,
                  evaluation = Some 0, bestMove = None, classification = Some mistake\<rparr>],
        playerColor = White, overallAccuracy = 75\<rparr> \<and>
   (0::real) \<le> 75 \<and> (75::real) \<le> 100 \<and>
   (75::real) = real (sum_list [100, 50]) / real (length [100, 50 :: nat]) \<and>
   map ev_classification
     (playerEvaluations exampleEngine True 0 (e_start exampleEngine)
        [(''e4'', ''fen1''), (''e5'', ''fen2''), (''Qh5'', ''fen3'')]) = [excellent, mistake] \<and>
   analyzeGame exampleEngine
     \<lparr>game_id = ''g1'', game_pgn = examplePgn, game_white = ''Alice'', game_black = ''bob''\<rparr>
     ''bob'' =
   Inr \<lparr>gameId = ''g1'',
        moves = [\<lparr>san = ''e4'', fen = ''fen1'', moveNumber = 1, isWhiteMove = True,
                  evaluation = None, bestMove = None, classification = None\<rparr>,
                 \<lparr>san = ''e5'', fen = ''fen2'', moveNumber = 1, isWhiteMove = False,
                  evaluation = Some 0, bestMove = None, classification = Some mistake\<rparr>,
                 \<lparr>san = ''Qh5'', fen = ''fen3'', moveNumber = 2, isWhiteMove = True,
                  evaluation = None, bestMove = None, classification = None\<rparr>],
        playerColor = Black, overallAccuracy = 50\<rparr> \<and>
   map ev_classification
     (playerEvaluations exampleEngine False 0 (e_start exampleEngine)
        [(''e4'', ''fen1''), (''e5'', ''fen2''), (''Qh5'', ''fen3'')]) = [mistake]"
proof -
  let ?g = "\<lparr>game_id = ''g1'', game_pgn = examplePgn, game_white = ''Alice'',
             game_black = ''bob''\<rparr>"
  let ?h = "[(''e4'', ''fen1''), (''e5'', ''fen2''), (''Qh5'', ''fen3'')]"
  let ?a = "\<lparr>gameId = ''g1'',
        moves = [\<lparr>san = ''e4'', fen = ''fen1'', moveNumber = 1, isWhiteMove = True,
                  evaluation = Some 0, bestMove = None, classification = Some excellent\<rparr>,
                 \<lparr>san = ''e5'', fen = ''fen2'', moveNumber = 1, isWhiteMove = False,
                  evaluation = None, bestMove = None, classification = None\<rparr>,
                 \<lparr>san = ''Qh5'', fen = ''fen3'', moveNumber = 2, isWhiteMove = True,
                  evaluation = Some 0, bestMove = None, classification = Some mistake\<rparr>],
        playerColor = White, overallAccuracy = 75\<rparr>"
  let ?b = "\<lparr>gameId = ''g1'',
        moves = [\<lparr>san = ''e4'', fen = ''fen1'', moveNumber = 1, isWhiteMove = True,
                  evaluation = None, bestMove = None, classification = None\<rparr>,
                 \<lparr>san = ''e5'', fen = ''fen2'', moveNumber = 1, isWhiteMove = False,
                  evaluation = Some 0, bestMove = None, classification = Some mistake\<rparr>,
                 \<lparr>san = ''Qh5'', fen = ''fen3'', moveNumber = 2, isWhiteMove = True,
                  evaluation = None, bestMove = None, classification = None\<rparr>],
        playerColor = Black, overallAccuracy = 50\<rparr>"
  have run: "analyzeGame exampleEngine ?g ''Alice'' = Inr ?a"
    by (simp add: analyzeGame_def extractMovesFromPgn_def exampleEngine_def exampleLoadPgn_def
        movesOfHistory_def enumerate_eq_zip upt_rec analyzeMove_def getPlayerColor_def
        isPlayerMove_def Let_def)
  have runb: "analyzeGame exampleEngine ?g ''bob'' = Inr ?b"
    by (simp add: analyzeGame_def extractMovesFromPgn_def exampleEngine_def exampleLoadPgn_def
        movesOfHistory_def enumerate_eq_zip upt_rec analyzeMove_def getPlayerColor_def
        isPlayerMove_def Let_def)
  have load: "e_loadPgn exampleEngine (game_pgn ?g) = Some ?h"
    by (simp add: exampleEngine_def exampleLoadPgn_def)
  have w: "(game_white ?g = ''Alice'') = True" and b: "(game_white ?g = ''bob'') = False"
    by simp_all
  have sc: "scores (moves ?a) = [100, 50]"
    by (simp add: scores_def)
  from analyzeGame_overallAccuracy [OF run load refl]
  have "0 \<le> overallAccuracy ?a \<and> overallAccuracy ?a \<le> 100 \<and>
        overallAccuracy ?a =
          (if scores (moves ?a) = [] then 0
           else real (sum_list (scores (moves ?a))) / real (length (scores (moves ?a))))"
    and va: "map classification (filter (\<lambda>m. classification m \<noteq> None) (moves ?a)) =
      map (\<lambda>ev. Some (ev_classification ev))
        (playerEvaluations exampleEngine (game_white ?g = ''Alice'') 0 (e_start exampleEngine) ?h)"
    by blast+
  then have bounds: "(0::real) \<le> 75 \<and> (75::real) \<le> 100 \<and>
     (75::real) = real (sum_list [100, 50]) / real (length [100, 50 :: nat])"
    unfolding sc by simp
  from analyzeGame_overallAccuracy [OF runb load refl]
  have vb: "map classification (filter (\<lambda>m. classification m \<noteq> None) (moves ?b)) =
      map (\<lambda>ev. Some (ev_classification ev))
        (playerEvaluations exampleEngine (game_white ?g = ''bob'') 0 (e_start exampleEngine) ?h)"
    by blast
  have inj: "map (\<lambda>ev. Some (ev_classification ev)) xs = map Some ys \<Longrightarrow>
      map ev_classification xs = ys" for xs ys
    by (induction xs arbitrary: ys) auto
  have ea: "map ev_classification
      (playerEvaluations exampleEngine True 0 (e_start exampleEngine) ?h) = [excellent, mistake]"
    using va unfolding w by (intro inj) simp
  have eb: "map ev_classification
      (playerEvaluations exampleEngine False 0 (e_start exampleEngine) ?h) = [mistake]"
    using vb unfolding b by (intro inj) simp
  show ?thesis using run runb bounds ea eb by blast
qed


section \<open>Properties of the cached-analysis loop\<close>

lemma parseChessComGame_id:
  "parseChessComGame lp g = Inr game \<Longrightarrow> game_id game = uuid g"
  by (auto simp: parseChessComGame_def split: option.splits)

lemma analyzeLoop_append:
  "analyzeLoop E cached u i (xs @ ys) st =
     analyzeLoop E cached u (i + length xs) ys (analyzeLoop E cached u i xs st)"
  by (induction xs arbitrary: i st) auto

subsection \<open>One iteration\<close>

lemma tryGame_throws:
  "fst (tryGame E cached u i g st) \<noteq> None \<longleftrightarrow> throws E cached u g"
  by (auto simp: tryGame_def throws_def Let_def split: sum.splits option.splits)

lemma tryGame_analyses:
  "analyses (snd (tryGame E cached u i g st)) =
     analyses st @ (if throws E cached u g then [] else [resolved E cached u g])"
  by (auto simp: tryGame_def throws_def resolved_def Let_def split: sum.splits option.splits)

lemma tryGame_parseCalls:
  "parseCalls (calls (snd (tryGame E cached u i g st))) = parseCalls (calls st) @ [uuid g]"
  by (auto simp: tryGame_def parseCalls_def Let_def split: sum.splits option.splits)

lemma tryGame_analyzeCalls:
  "analyzeCalls (calls (snd (tryGame E cached u i g st))) =
     analyzeCalls (calls st) @
     (if cached (uuid g) = None \<and> \<not> isl (parseChessComGame (chess_loadPgn E) g)
      then [uuid g] else [])"
  by (auto simp: tryGame_def analyzeCalls_def Let_def parseChessComGame_id
      split: sum.splits option.splits)

lemma tryGame_service_throws:
  "throws E cached u g \<Longrightarrow> service (snd (tryGame E cached u i g st)) = service st"
  by (auto simp: tryGame_def throws_def Let_def split: sum.splits option.splits)

lemma tryGame_service_other:
  "uuid g \<noteq> k \<Longrightarrow>
   getCachedAnalysis dec (service (snd (tryGame E cached u i g st))) k u' =
     getCachedAnalysis dec (service st) k u'"
  by (auto simp: tryGame_def Let_def getCachedAnalysis_cacheAnalysis
      split: sum.splits option.splits)

lemma tryGame_service_computed:
  assumes "cached (uuid g) = None"
    and "parseChessComGame (chess_loadPgn E) g = Inr game"
    and "aiAnalyzeGame E game u = Inr a"
  shows "getCachedAnalysis dec (service (snd (tryGame E cached u i g st))) (uuid g) u =
           dec (JSON_stringify E a)"
  using assms by (simp add: tryGame_def Let_def getCachedAnalysis_cacheAnalysis)

subsection \<open>The whole loop\<close>

lemma analyzeLoop_analyses:
  "analyses (analyzeLoop E cached u i gs st) =
     analyses st @ map (resolved E cached u) (filter (\<lambda>g. \<not> throws E cached u g) gs)"
  by (induction gs arbitrary: i st) (auto simp: tryGame_analyses)

lemma analyzeLoop_parseCalls:
  "parseCalls (calls (analyzeLoop E cached u i gs st)) = parseCalls (calls st) @ map uuid gs"
  by (induction gs arbitrary: i st) (auto simp: tryGame_parseCalls)

lemma analyzeLoop_analyzeCalls:
  "analyzeCalls (calls (analyzeLoop E cached u i gs st)) =
     analyzeCalls (calls st) @
     map uuid (filter (\<lambda>g. cached (uuid g) = None \<and>
                            \<not> isl (parseChessComGame (chess_loadPgn E) g)) gs)"
  by (induction gs arbitrary: i st) (auto simp: tryGame_analyzeCalls)

lemma analyzeLoop_service_other:
  "k \<notin> uuid ` set gs \<Longrightarrow>
   getCachedAnalysis dec (service (analyzeLoop E cached u i gs st)) k u' =
     getCachedAnalysis dec (service st) k u'"
  by (induction gs arbitrary: i st) (auto simp: tryGame_service_other)

lemma analyzeLoop_service_computed:
  assumes "distinct (map uuid gs)" and "h \<in> set gs"
    and "cached (uuid h) = None"
    and "parseChessComGame (chess_loadPgn E) h = Inr game"
    and "aiAnalyzeGame E game u = Inr a"
  shows "getCachedAnalysis dec (service (analyzeLoop E cached u i gs st)) (uuid h) u =
           dec (JSON_stringify E a)"
  using assms
proof (induction gs arbitrary: i st)
  case Nil
  then show ?case by simp
next
  case (Cons g rest)
  show ?case
  proof (cases "h = g")
    case True
    have "uuid h \<notin> uuid ` set rest"
      using Cons.prems(1) True by auto
    then show ?thesis
      using True Cons.prems tryGame_service_computed [of cached g E game u a dec i st]
      by (simp add: analyzeLoop_service_other)
  next
    case False
    then have "h \<in> set rest" and "distinct (map uuid rest)"
      using Cons.prems by auto
    then show ?thesis
      using Cons.IH Cons.prems by simp
  qed
qed

lemma throws_filter_split:
  assumes "throws E cached u bad" and "\<forall>g \<in> set (pre @ post). \<not> throws E cached u g"
  shows "filter (\<lambda>g. \<not> throws E cached u g) (pre @ bad # post) = pre @ post"
  using assms by (simp add: filter_id_conv)

subsection \<open>The claims about the loop\<close>

lemma analyzeBatch_loop:
  "analyzeBatch E c u gs = analyzeLoop E (cachedAnalysesOf E c u gs) u 0 gs (startBatch c)"
  by (simp add: analyzeBatch_def)

lemma startBatch_fields:
  "analyses (startBatch c) = []" "service (startBatch c) = c"
  "parseCalls (calls (startBatch c)) = []" "analyzeCalls (calls (startBatch c)) = []"
  by (simp_all add: startBatch_def parseCalls_def analyzeCalls_def)

lemma throws_if_unparsed:
  "isl (parseChessComGame (chess_loadPgn E) g) \<Longrightarrow> throws E cached u g"
  by (auto simp: throws_def split: sum.splits)

text \<open>
  Claim C2, as the specification states it, is refuted: the game \<open>g1\<close> has a stored
  analysis for \<open>bob\<close>, and the loop still calls the parser on it; and when the PGN of
  such a game does not parse, the loop returns no analysis for it although one is stored.
\<close>

theorem hit_is_parsed_counterexample:
  "getCachedAnalysis (JSON_parse exampleCollaborators) exampleStore ''g1'' ''bob'' =
     Some ''stored analysis of g1'' \<and>
   parseCalls (calls (analyzeBatch exampleCollaborators exampleStore ''bob''
                        [exampleGame ''g1'' examplePgn])) = [''g1''] \<and>
   analyses (analyzeBatch exampleCollaborators exampleStore ''bob''
               [exampleGame ''g1'' ''not a PGN'']) = []"
  by (simp add: analyzeBatch_def cachedAnalysesOf_def startBatch_def tryGame_def Let_def
      parseChessComGame_def parseCalls_def exampleCollaborators_def exampleLoadPgn_def
      examplePgn_def exampleGame_def exampleStore_def getCachedAnalysis_def
      getCachedAnalyses_def setRow_def cacheAnalysis_def emptyCache_def toLowerCase_def
      toLowerChar_def)

text \<open>
  Claim C2, amended: the evaluation step \<open>analyzeGame\<close> is invoked exactly once for
  every miss whose PGN parses, in the order of the input list, and for no hit; the parse
  step is invoked once for every game of the input, hits included. When no game of the
  input throws, the evaluation is invoked exactly once per miss in input order and the
  loop returns one analysis per input game in the input order, the stored analysis at
  the position of a hit and the newly computed one at the position of a miss.
\<close>

theorem analyzeBatch_partial_miss:
  assumes "cached = cachedAnalysesOf E c u rawGames"
  shows "analyzeCalls (calls (analyzeBatch E c u rawGames)) =
           map uuid (filter (\<lambda>g. cached (uuid g) = None \<and>
                                  \<not> isl (parseChessComGame (chess_loadPgn E) g)) rawGames) \<and>
         parseCalls (calls (analyzeBatch E c u rawGames)) = map uuid rawGames \<and>
         ((\<forall>g \<in> set rawGames. \<not> throws E cached u g) \<longrightarrow>
            analyzeCalls (calls (analyzeBatch E c u rawGames)) =
              map uuid (filter (\<lambda>g. cached (uuid g) = None) rawGames) \<and>
            analyses (analyzeBatch E c u rawGames) = map (resolved E cached u) rawGames)"
proof -
  have calls: "analyzeCalls (calls (analyzeBatch E c u rawGames)) =
           map uuid (filter (\<lambda>g. cached (uuid g) = None \<and>
                                  \<not> isl (parseChessComGame (chess_loadPgn E) g)) rawGames)"
    by (simp add: analyzeBatch_loop assms analyzeLoop_analyzeCalls startBatch_fields)
  have parses: "parseCalls (calls (analyzeBatch E c u rawGames)) = map uuid rawGames"
    by (simp add: analyzeBatch_loop analyzeLoop_parseCalls startBatch_fields)
  have ok: "analyzeCalls (calls (analyzeBatch E c u rawGames)) =
              map uuid (filter (\<lambda>g. cached (uuid g) = None) rawGames) \<and>
            analyses (analyzeBatch E c u rawGames) = map (resolved E cached u) rawGames"
    if nothrow: "\<forall>g \<in> set rawGames. \<not> throws E cached u g"
  proof -
    have "filter (\<lambda>g. cached (uuid g) = None \<and>
                       \<not> isl (parseChessComGame (chess_loadPgn E) g)) rawGames =
          filter (\<lambda>g. cached (uuid g) = None) rawGames"
      using nothrow throws_if_unparsed [of E _ cached u] by (intro filter_cong) auto
    moreover have "filter (\<lambda>g. \<not> throws E cached u g) rawGames = rawGames"
      using nothrow by (simp add: filter_id_conv)
    ultimately show ?thesis
      using calls by (simp add: analyzeBatch_loop assms analyzeLoop_analyses startBatch_fields)
  qed
  show ?thesis using calls parses ok by blast
qed

text \<open>
  Claim C8: in a batch in which exactly one game throws (its PGN does not parse, or it has
  no stored analysis and its evaluation fails) the loop skips that game only: it returns
  the analyses of the other games, in order, one fewer than the games of the batch. The
  loop is a total function, no exception leaves it.
\<close>

theorem one_failing_game_skipped:
  assumes "cached = cachedAnalysesOf E c u (pre @ bad # post)"
    and "throws E cached u bad"
    and "\<forall>g \<in> set (pre @ post). \<not> throws E cached u g"
  shows "length (analyses (analyzeBatch E c u (pre @ bad # post))) =
           length (pre @ bad # post) - 1 \<and>
         analyses (analyzeBatch E c u (pre @ bad # post)) =
           map (resolved E cached u) (pre @ post)"
proof -
  have "analyses (analyzeBatch E c u (pre @ bad # post)) =
          map (resolved E cached u) (filter (\<lambda>g. \<not> throws E cached u g) (pre @ bad # post))"
    by (simp add: analyzeBatch_loop assms(1) analyzeLoop_analyses startBatch_fields)
  also have "\<dots> = map (resolved E cached u) (pre @ post)"
    using throws_filter_split [OF assms(2) assms(3)] by simp
  finally show ?thesis by simp
qed

lemma analyzeLoop_split:
  "analyzeLoop E cached u i (xs @ g # ys) st =
     analyzeLoop E cached u (Suc (i + length xs)) ys
       (snd (tryGame E cached u (i + length xs) g (analyzeLoop E cached u i xs st)))"
  by (simp add: analyzeLoop_append)

lemma tryGame_computed:
  assumes "cached (uuid g) = None"
    and "parseChessComGame (chess_loadPgn E) g = Inr game"
    and "aiAnalyzeGame E game u = Inr a"
  shows "service (snd (tryGame E cached u i g st)) =
           cacheAnalysis (JSON_stringify E) (service st) (uuid g) u a (Date_now E i)"
    and "calls (snd (tryGame E cached u i g st)) =
           calls st @ [ParseCall (uuid g), AnalyzeCall (uuid g), StoreCall (uuid g)]"
  using assms parseChessComGame_id [OF assms(2)] by (simp_all add: tryGame_def Let_def)

lemma tryGame_calls_grow:
  "\<exists>zs. calls (snd (tryGame E cached u i g st)) = calls st @ ParseCall (uuid g) # zs"
  by (auto simp: tryGame_def Let_def split: sum.splits option.splits)

lemma analyzeLoop_calls_grow:
  "\<exists>zs. calls (analyzeLoop E cached u i gs st) = calls st @ zs"
proof (induction gs arbitrary: i st)
  case Nil
  then show ?case by simp
next
  case (Cons g rest)
  obtain z1 where z1: "calls (snd (tryGame E cached u i g st)) = calls st @ ParseCall (uuid g) # z1"
    using tryGame_calls_grow by blast
  obtain z2 where "calls (analyzeLoop E cached u (Suc i) rest (snd (tryGame E cached u i g st))) =
      calls (snd (tryGame E cached u i g st)) @ z2"
    using Cons.IH by blast
  then show ?case by (simp add: z1)
qed

lemma analyzeLoop_calls_order:
  assumes "h \<in> set pre"
    and "cached (uuid h) = None"
    and "parseChessComGame (chess_loadPgn E) h = Inr game"
    and "aiAnalyzeGame E game u = Inr a"
  shows "\<exists>xs ys zs. calls (analyzeLoop E cached u i (pre @ bad # post) st) =
           xs @ [ParseCall (uuid h), AnalyzeCall (uuid h), StoreCall (uuid h)] @ ys @
           ParseCall (uuid bad) # zs"
proof -
  from assms(1) obtain p1 p2 where pre: "pre = p1 @ h # p2"
    by (auto dest: split_list)
  define s0 where "s0 = analyzeLoop E cached u i p1 st"
  define s1 where "s1 = snd (tryGame E cached u (i + length p1) h s0)"
  define s2 where "s2 = analyzeLoop E cached u (Suc (i + length p1)) p2 s1"
  define s3 where "s3 = snd (tryGame E cached u (i + length pre) bad s2)"
  have at_h: "analyzeLoop E cached u i pre st = s2"
    unfolding pre s2_def s1_def s0_def by (rule analyzeLoop_split)
  have full: "analyzeLoop E cached u i (pre @ bad # post) st =
      analyzeLoop E cached u (Suc (i + length pre)) post s3"
    unfolding s3_def at_h [symmetric] by (rule analyzeLoop_split)
  have c1: "calls s1 = calls s0 @ [ParseCall (uuid h), AnalyzeCall (uuid h), StoreCall (uuid h)]"
    unfolding s1_def using assms(2-4) by (rule tryGame_computed(2))
  obtain ys where c2: "calls s2 = calls s1 @ ys"
    unfolding s2_def using analyzeLoop_calls_grow by blast
  obtain z1 where c3: "calls s3 = calls s2 @ ParseCall (uuid bad) # z1"
    unfolding s3_def using tryGame_calls_grow by blast
  obtain z2 where c4: "calls (analyzeLoop E cached u (Suc (i + length pre)) post s3) = calls s3 @ z2"
    using analyzeLoop_calls_grow by blast
  have "calls (analyzeLoop E cached u i (pre @ bad # post) st) =
      calls s0 @ [ParseCall (uuid h), AnalyzeCall (uuid h), StoreCall (uuid h)] @ ys @
      ParseCall (uuid bad) # (z1 @ z2)"
    by (simp add: full c4 c3 c2 c1)
  then show ?thesis by blast
qed

text \<open>
  Claim C3: the loop writes each newly computed analysis to the analysis table inside the
  iteration that computes it, before the next game is looked at. Let the game \<open>bad\<close>
  throw, and let \<open>h\<close> be a miss processed before it whose analysis \<open>a\<close> was computed.
  The iteration of \<open>h\<close>, in whatever state it runs, is a parse, an evaluation and a store
  and leaves the table with the record of \<open>h\<close> written. The run over the whole batch
  executes the \<^verbatim>\<open>try\<close> block of \<open>bad\<close> in the state that the loop has reached after the
  games before \<open>bad\<close>; in that state a direct read for \<open>h\<close> answers \<open>a\<close>; the block
  throws and leaves the table as it was; in the log of the run the store of \<open>h\<close> follows
  its evaluation at once and comes before the parse of \<open>bad\<close>; and after the end of the
  loop the read for \<open>h\<close> still answers \<open>a\<close>. The uuids of the games of a batch are
  distinct, and \<open>a\<close> survives the JSON round trip.
\<close>

theorem write_through_before_failure:
  assumes "cached = cachedAnalysesOf E c u (pre @ bad # post)"
    and "distinct (map uuid (pre @ bad # post))"
    and "throws E cached u bad"
    and "h \<in> set pre"
    and "cached (uuid h) = None"
    and "parseChessComGame (chess_loadPgn E) h = Inr game"
    and "aiAnalyzeGame E game u = Inr a"
    and "JSON_parse E (JSON_stringify E a) = Some a"
  shows "getCachedAnalysis (JSON_parse E)
           (service (analyzeLoop E cached u 0 pre (startBatch c))) (uuid h) u = Some a \<and>
         service (analyzeLoop E cached u 0 (pre @ [bad]) (startBatch c)) =
           service (analyzeLoop E cached u 0 pre (startBatch c)) \<and>
         getCachedAnalysis (JSON_parse E)
           (service (analyzeBatch E c u (pre @ bad # post))) (uuid h) u = Some a \<and>
         analyzeBatch E c u (pre @ bad # post) =
           analyzeLoop E cached u (Suc (length pre)) post
             (snd (tryGame E cached u (length pre) bad
                     (analyzeLoop E cached u 0 pre (startBatch c)))) \<and>
         fst (tryGame E cached u (length pre) bad
                (analyzeLoop E cached u 0 pre (startBatch c))) \<noteq> None \<and>
         service (snd (tryGame E cached u (length pre) bad
                         (analyzeLoop E cached u 0 pre (startBatch c)))) =
           service (analyzeLoop E cached u 0 pre (startBatch c)) \<and>
         service (snd (tryGame E cached u i h st)) =
           cacheAnalysis (JSON_stringify E) (service st) (uuid h) u a (Date_now E i) \<and>
         calls (snd (tryGame E cached u i h st)) =
           calls st @ [ParseCall (uuid h), AnalyzeCall (uuid h), StoreCall (uuid h)] \<and>
         (\<exists>xs ys zs. calls (analyzeBatch E c u (pre @ bad # post)) =
            xs @ [ParseCall (uuid h), AnalyzeCall (uuid h), StoreCall (uuid h)] @ ys @
            ParseCall (uuid bad) # zs)"
proof -
  let ?S = "analyzeLoop E cached u 0 pre (startBatch c)"
  have dpre: "distinct (map uuid pre)"
    using assms(2) by simp
  have stored: "getCachedAnalysis (JSON_parse E) (service ?S) (uuid h) u = Some a"
    using analyzeLoop_service_computed [where gs = pre and h = h and cached = cached and E = E
        and game = game and u = u and a = a and dec = "JSON_parse E" and i = 0
        and st = "startBatch c"] dpre assms(4-8)
    by simp
  have same: "service (analyzeLoop E cached u 0 (pre @ [bad]) (startBatch c)) = service ?S"
    using assms(3) by (simp add: analyzeLoop_append tryGame_service_throws)
  have through: "analyzeBatch E c u (pre @ bad # post) =
      analyzeLoop E cached u (Suc (length pre)) post (snd (tryGame E cached u (length pre) bad ?S))"
    using analyzeLoop_split [of E cached u 0 pre bad post "startBatch c"]
    by (simp add: analyzeBatch_loop assms(1) [symmetric])
  have thrown: "fst (tryGame E cached u (length pre) bad ?S) \<noteq> None"
    using assms(3) tryGame_throws [of E cached u "length pre" bad ?S] by blast
  have kept: "service (snd (tryGame E cached u (length pre) bad ?S)) = service ?S"
    using assms(3) by (rule tryGame_service_throws)
  have "uuid h \<in> uuid ` set pre"
    using assms(4) by simp
  then have "uuid h \<notin> uuid ` set post"
    using assms(2) by auto
  then have "getCachedAnalysis (JSON_parse E)
      (service (analyzeLoop E cached u (Suc (length pre)) post
                  (snd (tryGame E cached u (length pre) bad ?S)))) (uuid h) u =
    getCachedAnalysis (JSON_parse E)
      (service (snd (tryGame E cached u (length pre) bad ?S))) (uuid h) u"
    by (rule analyzeLoop_service_other)
  then have final: "getCachedAnalysis (JSON_parse E)
           (service (analyzeBatch E c u (pre @ bad # post))) (uuid h) u = Some a"
    by (simp add: through kept stored)
  have step: "service (snd (tryGame E cached u i h st)) =
           cacheAnalysis (JSON_stringify E) (service st) (uuid h) u a (Date_now E i)"
    and log: "calls (snd (tryGame E cached u i h st)) =
           calls st @ [ParseCall (uuid h), AnalyzeCall (uuid h), StoreCall (uuid h)]"
    using assms(5-7) by (rule tryGame_computed)+
  have order: "\<exists>xs ys zs. calls (analyzeBatch E c u (pre @ bad # post)) =
            xs @ [ParseCall (uuid h), AnalyzeCall (uuid h), StoreCall (uuid h)] @ ys @
            ParseCall (uuid bad) # zs"
    using analyzeLoop_calls_order [where h = h and pre = pre and cached = cached and E = E
        and game = game and u = u and a = a and i = 0 and bad = bad and post = post
        and st = "startBatch c"] assms(4-7)
    by (simp add: analyzeBatch_loop assms(1) [symmetric])
  show ?thesis using stored same final through thrown kept step log order by blast
qed

subsection \<open>The claims on the example batch\<close>

lemma example_lookups:
  assumes "cached = cachedAnalysesOf exampleCollaborators exampleStore ''bob'' gs"
    and "set (map uuid gs) \<subseteq> {''g1'', ''g2'', ''g3'', ''g4'', ''g5'', ''g-unanalyzable''}"
  shows "cached ''g1'' = (if ''g1'' \<in> set (map uuid gs) then Some ''stored analysis of g1'' else None)"
    and "cached ''g3'' = (if ''g3'' \<in> set (map uuid gs) then Some ''stored analysis of g3'' else None)"
    and "cached ''g2'' = None" and "cached ''g4'' = None" and "cached ''g5'' = None"
    and "cached ''g-unanalyzable'' = None"
  using assms(2) unfolding assms(1)
  by (auto simp: cachedAnalysesOf_def getCachedAnalyses_def exampleStore_def cacheAnalysis_def
      emptyCache_def setRow_def exampleCollaborators_def toLowerCase_def toLowerChar_def)

lemma example_parse:
  "parseChessComGame (chess_loadPgn exampleCollaborators) (exampleGame i examplePgn) =
     Inr \<lparr>game_id = i, game_pgn = examplePgn, game_white = ''Alice'', game_black = ''bob''\<rparr>"
  "parseChessComGame (chess_loadPgn exampleCollaborators) (exampleGame i ''not a PGN'') =
     Inl ParseError"
  by (simp_all add: parseChessComGame_def exampleCollaborators_def exampleLoadPgn_def
      exampleGame_def examplePgn_def)

theorem analyzeBatch_partial_miss_witness:
  "analyzeCalls (calls (analyzeBatch exampleCollaborators exampleStore ''bob'' exampleGames)) =
     [''g2'', ''g4'', ''g5''] \<and>
   parseCalls (calls (analyzeBatch exampleCollaborators exampleStore ''bob'' exampleGames)) =
     [''g1'', ''g2'', ''g3'', ''g4'', ''g5''] \<and>
   analyses (analyzeBatch exampleCollaborators exampleStore ''bob'' exampleGames) =
     [''stored analysis of g1'', ''analysis of g2 for bob'', ''stored analysis of g3'',
      ''analysis of g4 for bob'', ''analysis of g5 for bob'']"
proof -
  define cached where "cached = cachedAnalysesOf exampleCollaborators exampleStore ''bob'' exampleGames"
  have ids: "map uuid exampleGames = [''g1'', ''g2'', ''g3'', ''g4'', ''g5'']"
    by (simp add: exampleGames_def exampleGame_def)
  have look: "cached ''g1'' = Some ''stored analysis of g1''" "cached ''g2'' = None"
    "cached ''g3'' = Some ''stored analysis of g3''" "cached ''g4'' = None"
    "cached ''g5'' = None"
    using example_lookups [OF cached_def] by (simp_all add: ids)
  have uuid_ex: "uuid (exampleGame i p) = i" for i p
    by (simp add: exampleGame_def)
  have analyze: "aiAnalyzeGame exampleCollaborators
      \<lparr>game_id = i, game_pgn = examplePgn, game_white = ''Alice'', game_black = ''bob''\<rparr> ''bob'' =
      (if i = ''g-unanalyzable'' then Inl EvaluationError
       else Inr (''analysis of '' @ i @ '' for bob''))" for i
    by (simp add: exampleCollaborators_def)
  have nothrow: "\<forall>g \<in> set exampleGames. \<not> throws exampleCollaborators cached ''bob'' g"
    by (simp add: exampleGames_def throws_def example_parse uuid_ex look analyze)
  from analyzeBatch_partial_miss [OF cached_def] nothrow
  have 1: "analyzeCalls (calls (analyzeBatch exampleCollaborators exampleStore ''bob'' exampleGames)) =
             map uuid (filter (\<lambda>g. cached (uuid g) = None) exampleGames)"
    and 2: "parseCalls (calls (analyzeBatch exampleCollaborators exampleStore ''bob'' exampleGames)) =
             map uuid exampleGames"
    and 3: "analyses (analyzeBatch exampleCollaborators exampleStore ''bob'' exampleGames) =
             map (resolved exampleCollaborators cached ''bob'') exampleGames"
    by blast+
  have c1: "map uuid (filter (\<lambda>g. cached (uuid g) = None) exampleGames) = [''g2'', ''g4'', ''g5'']"
    by (simp add: exampleGames_def uuid_ex look)
  have c3: "map (resolved exampleCollaborators cached ''bob'') exampleGames =
     [''stored analysis of g1'', ''analysis of g2 for bob'', ''stored analysis of g3'',
      ''analysis of g4 for bob'', ''analysis of g5 for bob'']"
    by (simp add: exampleGames_def resolved_def uuid_ex look example_parse analyze)
  show ?thesis using 1 2 3 c1 c3 ids by simp
qed

theorem one_failing_game_skipped_witness:
  "length (analyses (analyzeBatch exampleCollaborators exampleStore ''bob''
                       ([exampleGame ''g1'' examplePgn] @ exampleGame ''g2'' ''not a PGN'' #
                        [exampleGame ''g3'' examplePgn, exampleGame ''g4'' examplePgn]))) = 3 \<and>
   analyses (analyzeBatch exampleCollaborators exampleStore ''bob''
               ([exampleGame ''g1'' examplePgn] @ exampleGame ''g2'' ''not a PGN'' #
                [exampleGame ''g3'' examplePgn, exampleGame ''g4'' examplePgn])) =
     [''stored analysis of g1'', ''stored analysis of g3'', ''analysis of g4 for bob'']"
proof -
  let ?pre = "[exampleGame ''g1'' examplePgn]"
  let ?bad = "exampleGame ''g2'' ''not a PGN''"
  let ?post = "[exampleGame ''g3'' examplePgn, exampleGame ''g4'' examplePgn]"
  define cached where
    "cached = cachedAnalysesOf exampleCollaborators exampleStore ''bob'' (?pre @ ?bad # ?post)"
  have uuid_ex: "uuid (exampleGame i p) = i" for i p
    by (simp add: exampleGame_def)
  have look: "cached ''g1'' = Some ''stored analysis of g1''"
    "cached ''g3'' = Some ''stored analysis of g3''" "cached ''g4'' = None"
    using example_lookups [OF cached_def] by (simp_all add: uuid_ex)
  have analyze: "aiAnalyzeGame exampleCollaborators
      \<lparr>game_id = ''g4'', game_pgn = examplePgn, game_white = ''Alice'', game_black = ''bob''\<rparr>
      ''bob'' = Inr ''analysis of g4 for bob''"
    by (simp add: exampleCollaborators_def)
  have bad: "throws exampleCollaborators cached ''bob'' ?bad"
    by (simp add: throws_def example_parse)
  have others: "\<forall>g \<in> set (?pre @ ?post). \<not> throws exampleCollaborators cached ''bob'' g"
    by (simp add: throws_def example_parse uuid_ex look analyze)
  have res: "map (resolved exampleCollaborators cached ''bob'') (?pre @ ?post) =
      [''stored analysis of g1'', ''stored analysis of g3'', ''analysis of g4 for bob'']"
    by (simp add: resolved_def uuid_ex look example_parse analyze)
  from one_failing_game_skipped [OF cached_def bad others] res
  show ?thesis by simp
qed

theorem write_through_before_failure_witness:
  "getCachedAnalysis (JSON_parse exampleCollaborators)
     (service (analyzeLoop exampleCollaborators
        (cachedAnalysesOf exampleCollaborators exampleStore ''bob''
           ([exampleGame ''g2'' examplePgn] @ exampleGame ''g-unanalyzable'' examplePgn #
            [exampleGame ''g4'' examplePgn]))
        ''bob'' 0 [exampleGame ''g2'' examplePgn] (startBatch exampleStore)))
     ''g2'' ''bob'' = Some ''analysis of g2 for bob'' \<and>
   getCachedAnalysis (JSON_parse exampleCollaborators)
     (service (analyzeBatch exampleCollaborators exampleStore ''bob''
        ([exampleGame ''g2'' examplePgn] @ exampleGame ''g-unanalyzable'' examplePgn #
         [exampleGame ''g4'' examplePgn])))
     ''g2'' ''bob'' = Some ''analysis of g2 for bob''"
proof -
  let ?pre = "[exampleGame ''g2'' examplePgn]"
  let ?bad = "exampleGame ''g-unanalyzable'' examplePgn"
  let ?post = "[exampleGame ''g4'' examplePgn]"
  define cached where
    "cached = cachedAnalysesOf exampleCollaborators exampleStore ''bob'' (?pre @ ?bad # ?post)"
  have uuid_ex: "uuid (exampleGame i p) = i" for i p
    by (simp add: exampleGame_def)
  have look: "cached ''g2'' = None" "cached ''g-unanalyzable'' = None"
    using example_lookups [OF cached_def] by (simp_all add: uuid_ex)
  have d: "distinct (map uuid (?pre @ ?bad # ?post))"
    by (simp add: uuid_ex)
  have fails: "aiAnalyzeGame exampleCollaborators
      \<lparr>game_id = ''g-unanalyzable'', game_pgn = examplePgn, game_white = ''Alice'',
       game_black = ''bob''\<rparr> ''bob'' = Inl EvaluationError"
    by (simp add: exampleCollaborators_def)
  have bad: "throws exampleCollaborators cached ''bob'' ?bad"
    by (simp add: throws_def example_parse uuid_ex look fails)
  have h: "exampleGame ''g2'' examplePgn \<in> set ?pre"
    by simp
  have miss: "cached (uuid (exampleGame ''g2'' examplePgn)) = None"
    by (simp add: uuid_ex look)
  have analyze: "aiAnalyzeGame exampleCollaborators
      \<lparr>game_id = ''g2'', game_pgn = examplePgn, game_white = ''Alice'', game_black = ''bob''\<rparr>
      ''bob'' = Inr ''analysis of g2 for bob''"
    by (simp add: exampleCollaborators_def)
  have json: "JSON_parse exampleCollaborators
      (JSON_stringify exampleCollaborators ''analysis of g2 for bob'') =
      Some ''analysis of g2 for bob''"
    by (simp add: exampleCollaborators_def)
  from write_through_before_failure [OF cached_def d bad h miss example_parse(1) analyze json]
  have "getCachedAnalysis (JSON_parse exampleCollaborators)
      (service (analyzeLoop exampleCollaborators cached ''bob'' 0 ?pre (startBatch exampleStore)))
      (uuid (exampleGame ''g2'' examplePgn)) ''bob'' = Some ''analysis of g2 for bob''"
    and "getCachedAnalysis (JSON_parse exampleCollaborators)
      (service (analyzeBatch exampleCollaborators exampleStore ''bob'' (?pre @ ?bad # ?post)))
      (uuid (exampleGame ''g2'' examplePgn)) ''bob'' = Some ''analysis of g2 for bob''"
    by blast+
  then show ?thesis by (simp add: uuid_ex cached_def)
qed

section \<open>Properties of \<^verbatim>\<open>ChessComService.getMonthlyGames\<close>\<close>

lemma getCachedMonthlyGames_hit:
  "fst (getCachedMonthlyGames ld c u y m now) = Some gs \<Longrightarrow>
   getCachedMonthlyGames ld c u y m now = (Some gs, c)"
  by (auto simp: getCachedMonthlyGames_def Let_def split: option.splits if_splits)

lemma getCachedMonthlyGames_miss:
  "fst (getCachedMonthlyGames ld c u y m now) = None \<Longrightarrow>
   \<exists>c'. getCachedMonthlyGames ld c u y m now = (None, c')"
  by (cases "getCachedMonthlyGames ld c u y m now") simp

lemma cacheGame_fields:
  "monthlyGamesCache (cacheGame ld enc c g u t) = monthlyGamesCache c"
  "userProfileCache (cacheGame ld enc c g u t) = userProfileCache c"
  "analysis (cacheGame ld enc c g u t) = analysis c"
  by (simp_all add: cacheGame_def split: prod.splits)

lemma fold_cacheGame_monthly:
  "monthlyGamesCache (fold (\<lambda>game c'. cacheGame ld enc c' game u t) gs c) = monthlyGamesCache c"
  by (induction gs arbitrary: c) (simp_all add: cacheGame_fields)

lemma cacheGames_monthly:
  "monthlyGamesCache (cacheGames ld enc c gs u t) = monthlyGamesCache c"
  by (simp add: cacheGames_def fold_cacheGame_monthly)

lemma find_filter_uuid:
  "find (\<lambda>r. g_uuid r = i) (filter (\<lambda>r. g_uuid r \<noteq> k) rows) =
     (if i = k then None else find (\<lambda>r. g_uuid r = i) rows)"
  by (induction rows) auto

lemma getCachedGame_cacheGame:
  "getCachedGame dec (cacheGame ld enc c g u t) i =
     (if i = uuid g then dec (enc g) else getCachedGame dec c i)"
  by (auto simp: getCachedGame_def cacheGame_def find_append_case find_filter_uuid
      split: prod.splits option.splits)

lemma fold_cacheGame_other:
  "i \<notin> uuid ` set gs \<Longrightarrow>
   getCachedGame dec (fold (\<lambda>game c'. cacheGame ld enc c' game u t) gs c) i =
     getCachedGame dec c i"
  by (induction gs arbitrary: c) (auto simp: getCachedGame_cacheGame)

lemma fold_cacheGame_stored:
  "distinct (map uuid gs) \<Longrightarrow> g \<in> set gs \<Longrightarrow>
   getCachedGame dec (fold (\<lambda>game c'. cacheGame ld enc c' game u t) gs c) (uuid g) =
     dec (enc g)"
proof (induction gs arbitrary: c)
  case Nil
  then show ?case by simp
next
  case (Cons x rest)
  show ?case
  proof (cases "g = x")
    case True
    then have "uuid g \<notin> uuid ` set rest"
      using Cons.prems(1) by auto
    then show ?thesis
      using True by (simp add: fold_cacheGame_other getCachedGame_cacheGame)
  next
    case False
    then show ?thesis
      using Cons by simp
  qed
qed

lemma cacheGames_stored:
  "distinct (map uuid gs) \<Longrightarrow> g \<in> set gs \<Longrightarrow>
   getCachedGame dec (cacheGames ld enc c gs u t) (uuid g) = dec (enc g)"
  by (auto simp: cacheGames_def fold_cacheGame_stored)

text \<open>What a call does when the monthly cache has no valid entry.\<close>

lemma getMonthlyGames_miss:
  assumes "getCachedMonthlyGames ld (cache s) u y m now = (None, c')"
  shows "getMonthlyGames ld enc api s u y m now now' =
     (case api (length (requests s)) (monthlyUrl u y m) of
        NotOk \<Rightarrow> (Inl FetchError, s\<lparr>cache := c', requests := requests s @ [monthlyUrl u y m]\<rparr>)
      | Archive gs \<Rightarrow>
          (Inr gs, s\<lparr>cache := cacheGames ld enc (cacheMonthlyGames c' u y m gs now') gs u now',
                     requests := requests s @ [monthlyUrl u y m]\<rparr>))"
  using assms by (simp add: getMonthlyGames_def Let_def split: response.splits)

lemma getMonthlyGames_hit:
  assumes "fst (getCachedMonthlyGames ld (cache s) u y m now) = Some gs"
  shows "getMonthlyGames ld enc api s u y m now now' = (Inr gs, s)"
  using getCachedMonthlyGames_hit [OF assms] by (simp add: getMonthlyGames_def)

lemma fresh_entry_served:
  assumes "monthlyGamesCache c (monthlyKey u y m) =
             Some \<lparr>data = gs, timestamp = t, expiresAt = t + MONTHLY_GAMES_TTL\<rparr>"
    and "now2 \<le> t + 300000"
  shows "fst (getCachedMonthlyGames ld c u y m now2) = Some gs"
  using assms by (simp add: getCachedMonthlyGames_def Let_def MONTHLY_GAMES_TTL_def)

text \<open>
  Claim C4: when an unexpired monthly batch is cached, \<open>getMonthlyGames\<close> answers it and
  leaves the whole state as it was, so it sends no request and writes nothing. Otherwise
  it sends exactly one request; when the request fails the error is the result; when it
  succeeds the batch is the result, the monthly cache holds it under the key of the call
  and every game of it can be read back from the games table. A second call for the same
  key that follows within five minutes of the write answers the same batch and changes
  nothing, so the source has been asked once.
\<close>

theorem getMonthlyGames_cache_then_source:
  "(fst (getCachedMonthlyGames ld (cache s) u y m now) = Some gs \<longrightarrow>
      getMonthlyGames ld enc api s u y m now now' = (Inr gs, s)) \<and>
   (fst (getCachedMonthlyGames ld (cache s) u y m now) = None \<longrightarrow>
      requests (snd (getMonthlyGames ld enc api s u y m now now')) =
        requests s @ [monthlyUrl u y m] \<and>
      (api (length (requests s)) (monthlyUrl u y m) = NotOk \<longrightarrow>
         fst (getMonthlyGames ld enc api s u y m now now') = Inl FetchError) \<and>
      (api (length (requests s)) (monthlyUrl u y m) = Archive gs \<longrightarrow>
         fst (getMonthlyGames ld enc api s u y m now now') = Inr gs \<and>
         monthlyGamesCache (cache (snd (getMonthlyGames ld enc api s u y m now now')))
           (monthlyKey u y m) =
           Some \<lparr>data = gs, timestamp = now', expiresAt = now' + MONTHLY_GAMES_TTL\<rparr> \<and>
         (distinct (map uuid gs) \<longrightarrow>
            (\<forall>g \<in> set gs.
               getCachedGame dec (cache (snd (getMonthlyGames ld enc api s u y m now now')))
                 (uuid g) = dec (enc g))) \<and>
         (now2 \<le> now' + 300000 \<longrightarrow>
            getMonthlyGames ld enc api (snd (getMonthlyGames ld enc api s u y m now now'))
              u y m now2 now2' =
              (Inr gs, snd (getMonthlyGames ld enc api s u y m now now')))))"
proof -
  have hit: "getMonthlyGames ld enc api s u y m now now' = (Inr gs, s)"
    if "fst (getCachedMonthlyGames ld (cache s) u y m now) = Some gs"
    using that by (rule getMonthlyGames_hit)
  have miss: "requests (snd (getMonthlyGames ld enc api s u y m now now')) =
        requests s @ [monthlyUrl u y m] \<and>
      (api (length (requests s)) (monthlyUrl u y m) = NotOk \<longrightarrow>
         fst (getMonthlyGames ld enc api s u y m now now') = Inl FetchError) \<and>
      (api (length (requests s)) (monthlyUrl u y m) = Archive gs \<longrightarrow>
         fst (getMonthlyGames ld enc api s u y m now now') = Inr gs \<and>
         monthlyGamesCache (cache (snd (getMonthlyGames ld enc api s u y m now now')))
           (monthlyKey u y m) =
           Some \<lparr>data = gs, timestamp = now', expiresAt = now' + MONTHLY_GAMES_TTL\<rparr> \<and>
         (distinct (map uuid gs) \<longrightarrow>
            (\<forall>g \<in> set gs.
               getCachedGame dec (cache (snd (getMonthlyGames ld enc api s u y m now now')))
                 (uuid g) = dec (enc g))) \<and>
         (now2 \<le> now' + 300000 \<longrightarrow>
            getMonthlyGames ld enc api (snd (getMonthlyGames ld enc api s u y m now now'))
              u y m now2 now2' =
              (Inr gs, snd (getMonthlyGames ld enc api s u y m now now'))))"
    if none: "fst (getCachedMonthlyGames ld (cache s) u y m now) = None"
  proof -
    from getCachedMonthlyGames_miss [OF none]
    obtain c' where c': "getCachedMonthlyGames ld (cache s) u y m now = (None, c')" ..
    note run = getMonthlyGames_miss [OF c', of enc api now']
    have req: "requests (snd (getMonthlyGames ld enc api s u y m now now')) =
        requests s @ [monthlyUrl u y m]"
      by (simp add: run split: response.splits)
    have err: "fst (getMonthlyGames ld enc api s u y m now now') = Inl FetchError"
      if "api (length (requests s)) (monthlyUrl u y m) = NotOk"
      using that by (simp add: run)
    have ok: "fst (getMonthlyGames ld enc api s u y m now now') = Inr gs \<and>
         monthlyGamesCache (cache (snd (getMonthlyGames ld enc api s u y m now now')))
           (monthlyKey u y m) =
           Some \<lparr>data = gs, timestamp = now', expiresAt = now' + MONTHLY_GAMES_TTL\<rparr> \<and>
         (distinct (map uuid gs) \<longrightarrow>
            (\<forall>g \<in> set gs.
               getCachedGame dec (cache (snd (getMonthlyGames ld enc api s u y m now now')))
                 (uuid g) = dec (enc g))) \<and>
         (now2 \<le> now' + 300000 \<longrightarrow>
            getMonthlyGames ld enc api (snd (getMonthlyGames ld enc api s u y m now now'))
              u y m now2 now2' =
              (Inr gs, snd (getMonthlyGames ld enc api s u y m now now')))"
      if arch: "api (length (requests s)) (monthlyUrl u y m) = Archive gs"
    proof -
      define s1 where "s1 = snd (getMonthlyGames ld enc api s u y m now now')"
      have res: "getMonthlyGames ld enc api s u y m now now' = (Inr gs, s1)"
        and s1: "cache s1 = cacheGames ld enc (cacheMonthlyGames c' u y m gs now') gs u now'"
        by (simp_all add: s1_def run arch)
      have entry: "monthlyGamesCache (cache s1) (monthlyKey u y m) =
           Some \<lparr>data = gs, timestamp = now', expiresAt = now' + MONTHLY_GAMES_TTL\<rparr>"
        by (simp add: s1 cacheGames_monthly cacheMonthlyGames_def)
      have stored: "\<forall>g \<in> set gs. getCachedGame dec (cache s1) (uuid g) = dec (enc g)"
        if "distinct (map uuid gs)"
        using that by (simp add: s1 cacheGames_stored)
      have again: "getMonthlyGames ld enc api s1 u y m now2 now2' = (Inr gs, s1)"
        if "now2 \<le> now' + 300000"
        using fresh_entry_served [OF entry that] by (rule getMonthlyGames_hit)
      show ?thesis
        using res entry stored again unfolding s1_def [symmetric] by simp
    qed
    show ?thesis using req err ok by blast
  qed
  show ?thesis using hit miss by blast
qed

theorem getMonthlyGames_cache_then_source_witness:
  "fst (getMonthlyGames (\<lambda>t. (2024, 9)) (\<lambda>g. g) exampleApi
          \<lparr>cache = (emptyCache :: (string, ChessComGame) CacheService), requests = []\<rparr>
          ''Alice'' 2024 9 5000 5200) =
     Inr [exampleGame ''g1'' examplePgn, exampleGame ''g2'' examplePgn] \<and>
   requests (snd (getMonthlyGames (\<lambda>t. (2024, 9)) (\<lambda>g. g) exampleApi
          \<lparr>cache = (emptyCache :: (string, ChessComGame) CacheService), requests = []\<rparr>
          ''Alice'' 2024 9 5000 5200)) =
     [''https://api.chess.com/pub/player/Alice/games/2024/09''] \<and>
   getCachedGame Some
     (cache (snd (getMonthlyGames (\<lambda>t. (2024, 9)) (\<lambda>g. g) exampleApi
          \<lparr>cache = (emptyCache :: (string, ChessComGame) CacheService), requests = []\<rparr>
          ''Alice'' 2024 9 5000 5200)))
     ''g2'' = Some (exampleGame ''g2'' examplePgn) \<and>
   getMonthlyGames (\<lambda>t. (2024, 9)) (\<lambda>g. g) exampleApi
     (snd (getMonthlyGames (\<lambda>t. (2024, 9)) (\<lambda>g. g) exampleApi
          \<lparr>cache = (emptyCache :: (string, ChessComGame) CacheService), requests = []\<rparr>
          ''Alice'' 2024 9 5000 5200))
     ''Alice'' 2024 9 6000 6100 =
     (Inr [exampleGame ''g1'' examplePgn, exampleGame ''g2'' examplePgn],
      snd (getMonthlyGames (\<lambda>t. (2024, 9)) (\<lambda>g. g) exampleApi
          \<lparr>cache = (emptyCache :: (string, ChessComGame) CacheService), requests = []\<rparr>
          ''Alice'' 2024 9 5000 5200))"
proof -
  let ?ld = "\<lambda>t::int. (2024::int, 9::int)"
  let ?s = "\<lparr>cache = (emptyCache :: (string, ChessComGame) CacheService), requests = []\<rparr>"
  let ?gs = "[exampleGame ''g1'' examplePgn, exampleGame ''g2'' examplePgn]"
  let ?first = "getMonthlyGames ?ld (\<lambda>g. g) exampleApi ?s ''Alice'' 2024 9 5000 5200"
  have none: "fst (getCachedMonthlyGames ?ld (cache ?s) ''Alice'' 2024 9 5000) = None"
    by (simp add: getCachedMonthlyGames_def emptyCache_def)
  have url: "monthlyUrl ''Alice'' 2024 9 = ''https://api.chess.com/pub/player/Alice/games/2024/09''"
    by (simp add: monthlyUrl_def baseUrl_def numberToString_def digits.simps padStart2_def)
  have arch: "exampleApi (length (requests ?s)) (monthlyUrl ''Alice'' 2024 9) = Archive ?gs"
    by (simp add: url exampleApi_def)
  have d: "distinct (map uuid ?gs)"
    by (simp add: exampleGame_def)
  have t: "(6000::int) \<le> 5200 + 300000"
    by simp
  have g2: "exampleGame ''g2'' examplePgn \<in> set ?gs"
    by simp
  from getMonthlyGames_cache_then_source [where ld = ?ld and s = ?s and u = "''Alice''"
      and y = 2024 and m = 9 and now = 5000 and now' = 5200 and gs = ?gs and api = exampleApi
      and enc = "\<lambda>g. g" and dec = Some and ?now2.0 = 6000 and ?now2' = 6100] none arch d t
  have 1: "fst ?first = Inr ?gs"
    and 2: "requests (snd ?first) = requests ?s @ [monthlyUrl ''Alice'' 2024 9]"
    and 3: "\<forall>g \<in> set ?gs. getCachedGame Some (cache (snd ?first)) (uuid g) = Some g"
    and 4: "getMonthlyGames ?ld (\<lambda>g. g) exampleApi (snd ?first) ''Alice'' 2024 9 6000 6100 =
              (Inr ?gs, snd ?first)"
    by blast+
  from 3 g2 have "getCachedGame Some (cache (snd ?first)) (uuid (exampleGame ''g2'' examplePgn)) =
      Some (exampleGame ''g2'' examplePgn)"
    by blast
  then have 5: "getCachedGame Some (cache (snd ?first)) ''g2'' = Some (exampleGame ''g2'' examplePgn)"
    by (simp add: exampleGame_def)
  from 2 have 6: "requests (snd ?first) = [''https://api.chess.com/pub/player/Alice/games/2024/09'']"
    by (simp add: url)
  show ?thesis using 1 6 5 4 by blast
qed

end
